theory Spec2Isabelle
  imports Complex_Main "HOL-Library.Log_Nat"
begin

section \<open>Strings of the service\<close>

text \<open>
  The service (\<^verbatim>\<open>AIService\<close>) is TypeScript. A JavaScript string is a sequence of
  UTF-16 code units; here a string is a list of \<^typ>\<open>char\<close>, read as the code units
  below 256 (Latin-1 text). \<^verbatim>\<open>s.length\<close> is \<^term>\<open>length s\<close>.
\<close>

definition LF :: char where
  "LF = CHR 0x0A"

text \<open>
  \<^verbatim>\<open>String.prototype.trim\<close> removes white space and line terminators at both ends.
  Below code unit 256 these are TAB, LF, VT, FF, CR, SPACE and NBSP.
\<close>

definition isWhiteSpace :: "char \<Rightarrow> bool" where
  "isWhiteSpace c \<longleftrightarrow>
     c = CHR 0x09 \<or> c = CHR 0x0A \<or> c = CHR 0x0B \<or> c = CHR 0x0C \<or> c = CHR 0x0D \<or>
     c = CHR 0x20 \<or> c = CHR 0xA0"

definition trim :: "string \<Rightarrow> string" where
  "trim s = rev (dropWhile isWhiteSpace (rev (dropWhile isWhiteSpace s)))"

text \<open>
  \<^verbatim>\<open>s.split(c)\<close> for a separator of one character: the pieces between the
  separators, empty pieces included; the empty string gives one empty piece.
  The result is never the empty list, so the last case of \<open>cons_first\<close> is not reached.
\<close>

fun cons_first :: "char \<Rightarrow> string list \<Rightarrow> string list" where
  "cons_first x (w # ws) = (x # w) # ws"
| "cons_first x [] = [[x]]"

fun split :: "char \<Rightarrow> string \<Rightarrow> string list" where
  "split c [] = [[]]"
| "split c (x # xs) = (if x = c then [] # split c xs else cons_first x (split c xs))"

text \<open>\<^verbatim>\<open>xs.join(sep)\<close>.\<close>

fun join :: "string \<Rightarrow> string list \<Rightarrow> string" where
  "join sep [] = []"
| "join sep [x] = x"
| "join sep (x # y # ys) = x @ sep @ join sep (y # ys)"

text \<open>
  \<^verbatim>\<open>String.prototype.toLowerCase\<close> on code units below 256: the letters A-Z and the
  Latin-1 capitals 0xC0-0xDE (the multiplication sign 0xD7 apart) move up by 32.
\<close>

definition toLowerChar :: "char \<Rightarrow> char" where
  "toLowerChar c =
     (let n = of_char c :: nat in
      if (0x41 \<le> n \<and> n \<le> 0x5A) \<or> (0xC0 \<le> n \<and> n \<le> 0xDE \<and> n \<noteq> 0xD7)
      then char_of (n + 32) else c)"

definition toLowerCase :: "string \<Rightarrow> string" where
  "toLowerCase s = map toLowerChar s"

text \<open>\<^verbatim>\<open>s.includes(t)\<close>: \<open>t\<close> occurs in \<open>s\<close> as a contiguous piece.\<close>

fun startsWith :: "string \<Rightarrow> string \<Rightarrow> bool" where
  "startsWith s [] = True"
| "startsWith [] (y # ys) = False"
| "startsWith (x # xs) (y # ys) = (x = y \<and> startsWith xs ys)"

fun includes_str :: "string \<Rightarrow> string \<Rightarrow> bool" where
  "includes_str [] t = (t = [])"
| "includes_str (x # xs) t = (startsWith (x # xs) t \<or> includes_str xs t)"

text \<open>
  \<^verbatim>\<open>s.replace('#', '')\<close> with a string pattern removes the first occurrence of the
  character and no other: \<^term>\<open>remove1 (CHR ''#'') s\<close>.

  \<^verbatim>\<open>xs.slice(0, n)\<close>: the first \<open>n\<close> elements for \<open>n \<ge> 0\<close>; a negative \<open>n\<close> counts
  from the end of the array.
\<close>

definition slice0 :: "int \<Rightarrow> 'a list \<Rightarrow> 'a list" where
  "slice0 n xs = (if 0 \<le> n then take (nat n) xs else take (nat (int (length xs) + n)) xs)"

text \<open>The regular expression \<^verbatim>\<open>/^[A-Z]/\<close>: the first code unit is one of A-Z.\<close>

definition startsUpper :: "string \<Rightarrow> bool" where
  "startsUpper s = (case s of [] \<Rightarrow> False
     | c # _ \<Rightarrow> (0x41::nat) \<le> of_char c \<and> (of_char c :: nat) \<le> 0x5A)"

text \<open>
  An integer inside a template literal, \<^verbatim>\<open>`${count}`\<close>, is printed in decimal
  (JavaScript switches to exponent notation from \<open>10\<^sup>2\<^sup>1\<close> on; such counts are not
  modelled).
\<close>

definition digit :: "nat \<Rightarrow> char" where
  "digit d = char_of (0x30 + d)"

function showNat :: "nat \<Rightarrow> string" where
  "showNat n = (if n < 10 then [digit n] else showNat (n div 10) @ [digit (n mod 10)])"
  by pat_completeness auto
termination
  by (relation "measure (\<lambda>n. n)") auto

definition showInt :: "int \<Rightarrow> string" where
  "showInt i = (if i < 0 then CHR ''-'' # showNat (nat (- i)) else showNat (nat i))"

section \<open>Numbers of the service\<close>

text \<open>
  A JavaScript number is an IEEE 754 double. A finite double is modelled by the rational
  it denotes; every arithmetic operation computes the exact result and rounds it to the
  nearest number with a significand of 53 bits, ties to the even significand (\<open>rnd\<close>).
  The exponent is not bounded: the scores, fractions and multipliers of this service stay
  far inside the range of normal doubles for every array length JavaScript allows
  (below \<open>2\<^sup>3\<^sup>2\<close>), where this is IEEE 754 arithmetic. The sign of zero is not kept.
\<close>

definition round_even :: "rat \<Rightarrow> int" where
  "round_even y =
     (let f = \<lfloor>y\<rfloor>; r = y - of_int f in
      if r < 1 / 2 then f else if 1 / 2 < r then f + 1 else if even f then f else f + 1)"

text \<open>The exponent of a positive rational: \<open>2 powi expo x \<le> x < 2 powi (expo x + 1)\<close>.\<close>

definition expo :: "rat \<Rightarrow> int" where
  "expo x =
     (let (p, q) = quotient_of x; d = bitlen p - bitlen q in
      if 2 powi d \<le> x then d else d - 1)"

definition rnd :: "rat \<Rightarrow> rat" where
  "rnd x =
     (if x = 0 then 0
      else let u = 2 powi (expo \<bar>x\<bar> - 52) in of_int (round_even (x / u)) * u)"

datatype number = Fin rat | PInf | NInf | NaN

fun num_add :: "number \<Rightarrow> number \<Rightarrow> number" where
  "num_add (Fin a) (Fin b) = Fin (rnd (a + b))"
| "num_add NaN _ = NaN"
| "num_add _ NaN = NaN"
| "num_add PInf NInf = NaN"
| "num_add NInf PInf = NaN"
| "num_add PInf _ = PInf"
| "num_add _ PInf = PInf"
| "num_add NInf _ = NInf"
| "num_add _ NInf = NInf"

fun num_neg :: "number \<Rightarrow> number" where
  "num_neg (Fin a) = Fin (- a)"
| "num_neg PInf = NInf"
| "num_neg NInf = PInf"
| "num_neg NaN = NaN"

definition num_sub :: "number \<Rightarrow> number \<Rightarrow> number" where
  "num_sub a b = num_add a (num_neg b)"

definition rat_sgn :: "rat \<Rightarrow> int" where
  "rat_sgn a = (if a < 0 then - 1 else if a = 0 then 0 else 1)"

fun num_sgn :: "number \<Rightarrow> int" where
  "num_sgn (Fin a) = rat_sgn a"
| "num_sgn PInf = 1"
| "num_sgn NInf = - 1"
| "num_sgn NaN = 0"

fun num_mul :: "number \<Rightarrow> number \<Rightarrow> number" where
  "num_mul (Fin a) (Fin b) = Fin (rnd (a * b))"
| "num_mul NaN _ = NaN"
| "num_mul _ NaN = NaN"
| "num_mul a b =
     (let s = num_sgn a * num_sgn b in if s = 0 then NaN else if 0 < s then PInf else NInf)"

fun num_div :: "number \<Rightarrow> number \<Rightarrow> number" where
  "num_div (Fin a) (Fin b) =
     (if b = 0 then (if a = 0 then NaN else if 0 < a then PInf else NInf)
      else Fin (rnd (a / b)))"
| "num_div NaN _ = NaN"
| "num_div _ NaN = NaN"
| "num_div (Fin a) _ = Fin 0"
| "num_div PInf (Fin b) = (if 0 \<le> b then PInf else NInf)"
| "num_div NInf (Fin b) = (if 0 \<le> b then NInf else PInf)"
| "num_div _ _ = NaN"

text \<open>\<^verbatim>\<open>Math.min(a, b)\<close>: \<open>NaN\<close> when either argument is \<open>NaN\<close>.\<close>

fun num_le :: "number \<Rightarrow> number \<Rightarrow> bool" where
  "num_le NaN _ = False"
| "num_le _ NaN = False"
| "num_le NInf _ = True"
| "num_le _ PInf = True"
| "num_le (Fin a) (Fin b) = (a \<le> b)"
| "num_le _ _ = False"

fun Math_min :: "number \<Rightarrow> number \<Rightarrow> number" where
  "Math_min NaN _ = NaN"
| "Math_min _ NaN = NaN"
| "Math_min a b = (if num_le a b then a else b)"

text \<open>
  A decimal literal of the program text denotes the double nearest to it; an array length
  or index is an integer below \<open>2\<^sup>5\<^sup>3\<close> and is its own double.
\<close>

definition lit :: "rat \<Rightarrow> number" where
  "lit x = Fin (rnd x)"

definition of_count :: "nat \<Rightarrow> number" where
  "of_count n = Fin (of_nat n)"

section \<open>Data model\<close>

datatype contentType = campaign | post | email | social

datatype tone = professional | casual | enthusiastic | friendly

datatype content_length = short | medium | long

text \<open>
  \<^verbatim>\<open>GenerateContentRequest\<close>; an optional field is \<open>None\<close> when it is undefined. The
  fields \<^verbatim>\<open>length\<close> and \<^verbatim>\<open>keywords\<close> are \<open>length'\<close> and \<open>keywords'\<close> here.
\<close>

record GenerateContentRequest =
  prompt :: string
  contentType :: contentType
  tone :: "tone option"
  length' :: "content_length option"
  targetAudience :: "string option"
  keywords' :: "string list option"

record ContentSuggestion =
  content :: string
  title :: "string option"
  hashtags :: "string list option"
  confidence :: number
  alternatives :: "string list option"

text \<open>
  Every failure the service reports is \<^verbatim>\<open>new Error(message)\<close>, the
  \<open>GenerationFailure\<close> of the specification; the message is kept.
\<close>

datatype error = GenerationFailure string

section \<open>Prompt builder\<close>

fun contentTypeName :: "contentType \<Rightarrow> string" where
  "contentTypeName campaign = ''campaign''"
| "contentTypeName post = ''post''"
| "contentTypeName email = ''email''"
| "contentTypeName social = ''social''"

fun contentTypeInstructions :: "contentType \<Rightarrow> string" where
  "contentTypeInstructions campaign = ''You are a marketing campaign strategist. Create comprehensive campaign content that drives engagement and conversions.''"
| "contentTypeInstructions post = ''You are a social media expert. Create engaging social media posts that capture attention and encourage interaction.''"
| "contentTypeInstructions email = ''You are an email marketing specialist. Create compelling email content that drives opens, clicks, and conversions.''"
| "contentTypeInstructions social = ''You are a social media content creator. Create shareable content optimized for social media platforms.''"

fun toneInstructions :: "tone \<Rightarrow> string" where
  "toneInstructions professional = ''Use a professional, authoritative tone.''"
| "toneInstructions casual = ''Use a casual, conversational tone.''"
| "toneInstructions enthusiastic = ''Use an enthusiastic, energetic tone.''"
| "toneInstructions friendly = ''Use a friendly, approachable tone.''"

fun lengthInstructions :: "content_length \<Rightarrow> string" where
  "lengthInstructions short = ''Keep it concise (1-2 sentences)''"
| "lengthInstructions medium = ''Medium length (2-4 sentences)''"
| "lengthInstructions long = ''Comprehensive length (multiple paragraphs)''"

text \<open>
  \<^verbatim>\<open>if (request.targetAudience)\<close> tests the string for truthiness: the empty string
  counts as absent. A tone or a length, when present, is a non-empty literal.
\<close>

definition buildSystemPrompt :: "GenerateContentRequest \<Rightarrow> string" where
  "buildSystemPrompt request =
     (let systemPrompt = contentTypeInstructions (contentType request);
          systemPrompt = (case tone request of
              Some t \<Rightarrow> systemPrompt @ '' '' @ toneInstructions t
            | None \<Rightarrow> systemPrompt);
          systemPrompt = (case targetAudience request of
              Some a \<Rightarrow> if a \<noteq> [] then systemPrompt @ '' Target audience: '' @ a @ ''.''
                        else systemPrompt
            | None \<Rightarrow> systemPrompt)
      in systemPrompt @ '' Provide high-quality, original content that is engaging and relevant.'')"

definition buildUserPrompt :: "GenerateContentRequest \<Rightarrow> string" where
  "buildUserPrompt request =
     (let userPrompt = ''Create '' @ contentTypeName (contentType request)
            @ '' content based on: '' @ prompt request;
          userPrompt = (case length' request of
              Some l \<Rightarrow> userPrompt @ '' Length: '' @ lengthInstructions l @ ''.''
            | None \<Rightarrow> userPrompt);
          userPrompt = (case keywords' request of
              Some ks \<Rightarrow> if 0 < length ks
                then userPrompt @ '' Include these keywords naturally: '' @ join '', '' ks @ ''.''
                else userPrompt
            | None \<Rightarrow> userPrompt)
      in userPrompt)"

section \<open>Confidence scorer and output parser\<close>

text \<open>
  \<^verbatim>\<open>if (request.keywords)\<close> tests an array, which is truthy even when it is empty:
  the keyword branch runs for every list that is present.
\<close>

definition calculateConfidence :: "string \<Rightarrow> GenerateContentRequest \<Rightarrow> number" where
  "calculateConfidence content' request =
     (let confidence = lit (8 / 10);
          wordCount = length (split (CHR '' '') content');
          confidence =
            (if length' request = Some short \<and> wordCount \<le> 50
               then num_add confidence (lit (1 / 10))
             else if length' request = Some medium \<and> 50 < wordCount \<and> wordCount \<le> 200
               then num_add confidence (lit (1 / 10))
             else if length' request = Some long \<and> 200 < wordCount
               then num_add confidence (lit (1 / 10))
             else confidence);
          confidence = (case keywords' request of
              Some ks \<Rightarrow>
                (let keywordMatches = length (filter (\<lambda>keyword.
                       includes_str (toLowerCase content') (toLowerCase keyword)) ks)
                 in num_add confidence
                      (num_mul (num_div (of_count keywordMatches) (of_count (length ks)))
                         (lit (1 / 10))))
            | None \<Rightarrow> confidence)
      in Math_min confidence (lit 1))"

definition parseGeneratedContent :: "string \<Rightarrow> GenerateContentRequest \<Rightarrow> ContentSuggestion" where
  "parseGeneratedContent generatedText request =
     (let lines = filter (\<lambda>line. 0 < length (trim line)) (split LF generatedText);
          (title', content') =
            (if 1 < length lines \<and> length (hd lines) < 100 \<and> startsUpper (hd lines)
             then (Some (trim (hd lines)), trim (join [LF] (tl lines)))
             else (None, trim generatedText));
          confidence' = calculateConfidence content' request
      in \<lparr>content = content', title = title', hashtags = None,
          confidence = confidence', alternatives = None\<rparr>)"

section \<open>Model invoker\<close>

text \<open>
  The provider call \<^verbatim>\<open>this.model.generateContent\<close> either rejects or resolves to a
  response; of a response the service reads
  \<^verbatim>\<open>response.response.candidates[0].content.parts[0].text\<close>. A response is modelled by
  its candidates, a candidate by the \<^verbatim>\<open>text\<close> fields of its parts (\<open>None\<close> for a
  part without text). Reading a property of \<^verbatim>\<open>undefined\<close> raises inside the
  \<^verbatim>\<open>try\<close> block, and so does \<^verbatim>\<open>split\<close> on a missing text: \<open>first_text\<close> is \<open>None\<close>
  exactly when the \<^verbatim>\<open>catch\<close> block runs.
\<close>

datatype provider_outcome = Rejected | Resolved "string option list list"

fun first_text :: "provider_outcome \<Rightarrow> string option" where
  "first_text Rejected = None"
| "first_text (Resolved []) = None"
| "first_text (Resolved ([] # _)) = None"
| "first_text (Resolved ((t # _) # _)) = t"

definition generateContent ::
  "(string \<Rightarrow> provider_outcome) \<Rightarrow> GenerateContentRequest \<Rightarrow> error + ContentSuggestion" where
  "generateContent model request =
     (let systemPrompt = buildSystemPrompt request;
          userPrompt = buildUserPrompt request
      in case first_text (model (systemPrompt @ [LF, LF] @ userPrompt)) of
           Some generatedText \<Rightarrow> Inr (parseGeneratedContent generatedText request)
         | None \<Rightarrow> Inl (GenerationFailure ''Failed to generate content. Please try again.''))"

text \<open>
  \<^verbatim>\<open>Promise.all\<close>: the promises settle in some order of time, \<open>time i\<close> being the moment
  the \<open>i\<close>-th promise of the array settles. When none rejects, the result is the array of
  their values in the order of the array; otherwise it is the reason of the promise that
  rejected first.
\<close>

definition Promise_all :: "(error + 'a) list \<Rightarrow> (nat \<Rightarrow> nat) \<Rightarrow> error + 'a list" where
  "Promise_all promises time =
     (case filter (\<lambda>i. isl (promises ! i)) [0..<length promises] of
        [] \<Rightarrow> Inr (map projr promises)
      | i # js \<Rightarrow> Inl (projl (promises ! arg_min_list time (i # js))))"

text \<open>
  \<^verbatim>\<open>Array.from({ length: count }, f)\<close> has \<open>count\<close> elements for a count of at least 0
  and none for a negative count (counts are integers here). The provider may answer each
  call differently: \<open>model i\<close> is its behaviour on the \<open>i\<close>-th call issued. The count is
  always passed here; a caller that omits it gets 3 in \<open>generateMultipleVariations\<close> and 10
  in \<open>generateHashtags\<close>.
\<close>

definition generateMultipleVariations ::
  "(nat \<Rightarrow> string \<Rightarrow> provider_outcome) \<Rightarrow> (nat \<Rightarrow> nat) \<Rightarrow> GenerateContentRequest \<Rightarrow> int
     \<Rightarrow> error + ContentSuggestion list" where
  "generateMultipleVariations model time request count =
     (let promises = map (\<lambda>i. generateContent (model i)
            (request\<lparr>prompt := prompt request @ '' (Generate a unique variation)''\<rparr>))
            [0..<nat count]
      in case Promise_all promises time of
           Inr results \<Rightarrow> Inr (map (\<lambda>(result, index).
               result\<lparr>confidence := num_mul (confidence result)
                 (num_sub (lit 1) (num_mul (of_count index) (lit (1 / 10))))\<rparr>)
               (zip results [0..<length results]))
         | Inl e \<Rightarrow> Inl (GenerationFailure ''Failed to generate content variations.''))"

datatype improvementType = engagement | clarity | seo | tone'

definition improvementPrompts :: "string option \<Rightarrow> improvementType \<Rightarrow> string" where
  "improvementPrompts targetAudience' t = (case t of
       engagement \<Rightarrow> ''Make this content more engaging and compelling''
     | clarity \<Rightarrow> ''Improve the clarity and readability of this content''
     | seo \<Rightarrow> ''Optimize this content for search engines while maintaining readability''
     | tone' \<Rightarrow> ''Adjust the tone of this content to better match the ''
         @ (case targetAudience' of
              Some a \<Rightarrow> if a \<noteq> [] then a else ''target audience''
            | None \<Rightarrow> ''target audience''))"

definition improvContent ::
  "(string \<Rightarrow> provider_outcome) \<Rightarrow> string \<Rightarrow> improvementType \<Rightarrow> string option
     \<Rightarrow> error + ContentSuggestion" where
  "improvContent model originalContent improvementType' targetAudience' =
     (let prompt' = improvementPrompts targetAudience' improvementType' @ '':'' @ [LF, LF]
            @ originalContent
      in generateContent model
           \<lparr>prompt = prompt', contentType = post, tone = None, length' = None,
            targetAudience = targetAudience', keywords' = None\<rparr>)"

definition generateHashtags ::
  "(string \<Rightarrow> provider_outcome) \<Rightarrow> string \<Rightarrow> int \<Rightarrow> error + string list" where
  "generateHashtags model content' count =
     (let prompt' = ''Generate '' @ showInt count
            @ '' relevant and popular hashtags for the following content. Return only the hashtags separated by commas, without the # symbol:''
            @ [LF, LF] @ content'
      in case first_text (model prompt') of
           Some generatedText \<Rightarrow>
             Inr (slice0 count
               (filter (\<lambda>tag. 0 < length tag)
                 (map (\<lambda>tag. remove1 (CHR ''#'') (trim tag))
                   (split (CHR '','') generatedText))))
         | None \<Rightarrow> Inr [])"

section \<open>Definitions used by the statements\<close>

text \<open>
  The promises \<^verbatim>\<open>generateMultipleVariations\<close> hands to \<^verbatim>\<open>Promise.all\<close>: the single-shot
  calls in the order they are issued. \<open>decay index\<close> is the factor \<^verbatim>\<open>(1 - index * 0.1)\<close>.
\<close>

definition single_shots ::
  "(nat \<Rightarrow> string \<Rightarrow> provider_outcome) \<Rightarrow> GenerateContentRequest \<Rightarrow> int
     \<Rightarrow> (error + ContentSuggestion) list" where
  "single_shots model request count =
     map (\<lambda>i. generateContent (model i)
       (request\<lparr>prompt := prompt request @ '' (Generate a unique variation)''\<rparr>)) [0..<nat count]"

definition decay :: "nat \<Rightarrow> number" where
  "decay index = num_sub (lit 1) (num_mul (of_count index) (lit (1 / 10)))"

text \<open>
  The route \<^verbatim>\<open>POST /variations\<close> validates \<^verbatim>\<open>count: Joi.number().min(2).max(5)\<close>
  before it calls the service.
\<close>

definition variations_count_schema :: "int \<Rightarrow> bool" where
  "variations_count_schema count \<longleftrightarrow> 2 \<le> count \<and> count \<le> 5"

text \<open>A request and two providers, for concrete runs of the service.\<close>

definition example_request :: GenerateContentRequest where
  "example_request = \<lparr>prompt = ''Spring sale launch'', contentType = post, tone = None,
     length' = Some short, targetAudience = None, keywords' = None\<rparr>"

definition always :: "string \<Rightarrow> string \<Rightarrow> provider_outcome" where
  "always t s = Resolved [[Some t]]"

definition failing_second :: "nat \<Rightarrow> string \<Rightarrow> provider_outcome" where
  "failing_second i s = (if i = 1 then Rejected else Resolved [[Some ''Hello world'']])"

text \<open>
  The instruction pair as the specification words it: the role description, the tone
  clause when a tone is present, the audience clause when a target audience is present,
  the closing instruction; and the user instruction with its length and keyword clauses.
\<close>

definition spec_systemInstruction :: "GenerateContentRequest \<Rightarrow> string" where
  "spec_systemInstruction request =
     contentTypeInstructions (contentType request)
     @ (case tone request of Some t \<Rightarrow> '' '' @ toneInstructions t | None \<Rightarrow> [])
     @ (case targetAudience request of
          Some a \<Rightarrow> '' Target audience: '' @ a @ ''.'' | None \<Rightarrow> [])
     @ '' Provide high-quality, original content that is engaging and relevant.''"

definition spec_userInstruction :: "GenerateContentRequest \<Rightarrow> string" where
  "spec_userInstruction request =
     ''Create '' @ contentTypeName (contentType request) @ '' content based on: ''
     @ prompt request
     @ (case length' request of
          Some l \<Rightarrow> '' Length: '' @ lengthInstructions l @ ''.'' | None \<Rightarrow> [])
     @ (case keywords' request of
          Some ks \<Rightarrow> if ks \<noteq> []
            then '' Include these keywords naturally: '' @ join '', '' ks @ ''.'' else []
        | None \<Rightarrow> [])"

text \<open>
  The text \<open>generateHashtags\<close> submits, and the parsing as the specification words it:
  split on commas, trim each token, strip a leading hash character, drop the empty
  tokens, keep the first \<open>N\<close>.
\<close>

definition hashtags_prompt :: "string \<Rightarrow> int \<Rightarrow> string" where
  "hashtags_prompt content' count =
     ''Generate '' @ showInt count
     @ '' relevant and popular hashtags for the following content. Return only the hashtags separated by commas, without the # symbol:''
     @ [LF, LF] @ content'"

definition strip_leading_hash :: "string \<Rightarrow> string" where
  "strip_leading_hash s = (case s of c # r \<Rightarrow> if c = CHR ''#'' then r else s | [] \<Rightarrow> [])"

definition spec_hashtags :: "int \<Rightarrow> string \<Rightarrow> string list" where
  "spec_hashtags n raw =
     take (nat n) (filter (\<lambda>t. t \<noteq> [])
       (map (\<lambda>t. strip_leading_hash (trim t)) (split (CHR '','') raw)))"

text \<open>
  The output parser as the specification words it: the lines are trimmed and the empty
  ones dropped; the tests and the joining work on the trimmed lines. \<open>kept_lines\<close> are the
  lines the service keeps: those that are not empty after trimming, untrimmed.
\<close>

definition spec_parse :: "string \<Rightarrow> string option \<times> string" where
  "spec_parse raw =
     (let lines = filter (\<lambda>l. l \<noteq> []) (map trim (split LF raw)) in
      if 2 \<le> length lines \<and> length (hd lines) < 100 \<and> startsUpper (hd lines)
      then (Some (hd lines), join [LF] (tl lines))
      else (None, trim raw))"

definition kept_lines :: "string \<Rightarrow> string list" where
  "kept_lines raw = filter (\<lambda>line. trim line \<noteq> []) (split LF raw)"

text \<open>
  The score as the specification words it: the base 0.8, plus 0.1 when the word count
  lies in the band of the requested length, plus 0.1 times the fraction of the keywords
  that occur in the content without regard to case when the keyword list is non-empty,
  clamped to at most 1. An absent and an empty keyword list both get no keyword bonus.
  The sums and products are those of doubles.
\<close>

definition in_band :: "content_length option \<Rightarrow> nat \<Rightarrow> bool" where
  "in_band l wordCount = (case l of
       Some short \<Rightarrow> wordCount \<le> 50
     | Some medium \<Rightarrow> 50 < wordCount \<and> wordCount \<le> 200
     | Some long \<Rightarrow> 200 < wordCount
     | None \<Rightarrow> False)"

definition keyword_fraction :: "string \<Rightarrow> string list \<Rightarrow> number" where
  "keyword_fraction content' ks =
     num_div
       (of_count (length (filter (\<lambda>k. includes_str (toLowerCase content') (toLowerCase k)) ks)))
       (of_count (length ks))"

definition spec_confidence :: "string \<Rightarrow> GenerateContentRequest \<Rightarrow> number" where
  "spec_confidence content' request =
     (let base = lit (8 / 10);
          fitted = (if in_band (length' request) (length (split (CHR '' '') content'))
                    then num_add base (lit (1 / 10)) else base);
          covered = (case keywords' request of
              Some ks \<Rightarrow>
                if ks \<noteq> []
                then num_add fitted (num_mul (lit (1 / 10)) (keyword_fraction content' ks))
                else fitted
            | None \<Rightarrow> fitted)
      in Math_min covered (lit 1))"

text \<open>A content of ten words.\<close>

definition ten_words :: string where
  "ten_words = ''Big spring sale starts today with deals on every shelf''"

text \<open>
  \<open>in_unit x\<close>: the number \<open>x\<close> lies in \<open>[0, 1]\<close> (which \<open>NaN\<close> does not). \<open>submitted request\<close> is
  the text \<open>generateContent\<close> submits to the provider, \<open>variation_request\<close> the request of
  each call of a batch. \<open>fin_nonneg x\<close>: \<open>x\<close> is a finite double that is not negative.
\<close>

definition in_unit :: "number \<Rightarrow> bool" where
  "in_unit x \<longleftrightarrow> num_le (Fin 0) x \<and> num_le x (Fin 1)"

definition submitted :: "GenerateContentRequest \<Rightarrow> string" where
  "submitted request = buildSystemPrompt request @ [LF, LF] @ buildUserPrompt request"

definition variation_request :: "GenerateContentRequest \<Rightarrow> GenerateContentRequest" where
  "variation_request request =
     request\<lparr>prompt := prompt request @ '' (Generate a unique variation)''\<rparr>"

definition fin_nonneg :: "number \<Rightarrow> bool" where
  "fin_nonneg x = (case x of Fin a \<Rightarrow> 0 \<le> a \<and> rnd a = a | _ \<Rightarrow> False)"

text \<open>
  The request \<open>improvContent\<close> hands to \<open>generateContent\<close>.
\<close>

definition improvement_request ::
  "string \<Rightarrow> improvementType \<Rightarrow> string option \<Rightarrow> GenerateContentRequest" where
  "improvement_request originalContent improvementType' targetAudience' =
     \<lparr>prompt = improvementPrompts targetAudience' improvementType' @ '':'' @ [LF, LF]
        @ originalContent,
      contentType = post, tone = None, length' = None, targetAudience = targetAudience',
      keywords' = None\<rparr>"

text \<open>
  A request with four keywords and no length option.
\<close>

definition keyword_request :: GenerateContentRequest where
  "keyword_request = \<lparr>prompt = ''Spring sale launch'', contentType = post, tone = None,
     length' = None, targetAudience = None,
     keywords' = Some [''spring'', ''Sale'', ''winter'', ''DEALS'']\<rparr>"

section \<open>Variation batches and provider failure\<close>

lemma length_single_shots: "length (single_shots model request count) = nat count"
  by (simp add: single_shots_def)

lemma Promise_all_Inr_iff:
  "(\<exists>rs. Promise_all ps time = Inr rs) \<longleftrightarrow> (\<forall>p \<in> set ps. \<not> isl p)"
proof -
  have "filter (\<lambda>i. isl (ps ! i)) [0..<length ps] = [] \<longleftrightarrow> (\<forall>p \<in> set ps. \<not> isl p)"
    by (auto simp: filter_empty_conv all_set_conv_all_nth)
  then show ?thesis
    by (auto simp: Promise_all_def split: list.splits)
qed

lemma Promise_all_Inr:
  "Promise_all ps time = Inr rs \<Longrightarrow> rs = map projr ps"
  by (auto simp: Promise_all_def split: list.splits)

lemma Promise_all_fulfilled:
  "\<forall>p \<in> set ps. \<not> isl p \<Longrightarrow> Promise_all ps time = Inr (map projr ps)"
  using Promise_all_Inr_iff[of ps time] Promise_all_Inr[of ps time] by auto

lemma Promise_all_rejected:
  "\<exists>p \<in> set ps. isl p \<Longrightarrow> \<exists>e. Promise_all ps time = Inl e"
  using Promise_all_Inr_iff[of ps time] by (cases "Promise_all ps time") auto

lemma variations_unfold:
  "generateMultipleVariations model time request count =
     (case Promise_all (single_shots model request count) time of
        Inr results \<Rightarrow> Inr (map (\<lambda>(result, index).
            result\<lparr>confidence := num_mul (confidence result) (decay index)\<rparr>)
            (zip results [0..<length results]))
      | Inl e \<Rightarrow> Inl (GenerationFailure ''Failed to generate content variations.''))"
  by (simp add: generateMultipleVariations_def single_shots_def decay_def split: sum.splits)

lemma variations_rejected:
  assumes "\<exists>p \<in> set (single_shots model request count). isl p"
  shows "generateMultipleVariations model time request count =
           Inl (GenerationFailure ''Failed to generate content variations.'')"
  using Promise_all_rejected[OF assms, of time] by (auto simp: variations_unfold)

lemma variations_fulfilled:
  assumes "\<forall>p \<in> set (single_shots model request count). \<not> isl p"
  shows "generateMultipleVariations model time request count =
           Inr (map (\<lambda>index. (projr (single_shots model request count ! index))
               \<lparr>confidence := num_mul (confidence (projr (single_shots model request count ! index)))
                  (decay index)\<rparr>) [0..<nat count])"
proof -
  let ?ps = "single_shots model request count"
  have "Promise_all ?ps time = Inr (map projr ?ps)"
    by (rule Promise_all_fulfilled[OF assms])
  moreover have "map (\<lambda>(result, index). result\<lparr>confidence := num_mul (confidence result) (decay index)\<rparr>)
            (zip (map projr ?ps) [0..<length (map projr ?ps)])
      = map (\<lambda>index. (projr (?ps ! index))\<lparr>confidence := num_mul (confidence (projr (?ps ! index))) (decay index)\<rparr>) [0..<nat count]"
    by (rule nth_equalityI) (simp_all add: length_single_shots)
  ultimately show ?thesis
    by (simp add: variations_unfold)
qed

lemma variations_succeed:
  assumes "\<forall>i < nat count. \<not> isl (single_shots model request count ! i)"
  shows "\<exists>rs. generateMultipleVariations model time request count = Inr rs"
proof -
  have "\<forall>p \<in> set (single_shots model request count). \<not> isl p"
    using assms length_single_shots[of model request count] by (metis in_set_conv_nth)
  from variations_fulfilled[OF this, of time] show ?thesis by blast
qed

text \<open>
  Claim C6. Variation generation is all-or-nothing: when one of the \<open>N\<close> single-shot calls
  of a batch fails, \<open>generateMultipleVariations\<close> fails with the batch failure and returns
  no suggestion; it returns a list exactly when every call succeeded, and that list has
  \<open>N\<close> elements. This holds whatever the order in which the calls settle.
\<close>

theorem variations_all_or_nothing:
  "((\<exists>i < nat count. isl (single_shots model request count ! i)) \<longrightarrow>
      generateMultipleVariations model time request count =
        Inl (GenerationFailure ''Failed to generate content variations.'')) \<and>
   ((\<exists>rs. generateMultipleVariations model time request count = Inr rs) \<longleftrightarrow>
      (\<forall>i < nat count. \<not> isl (single_shots model request count ! i))) \<and>
   (\<forall>rs. generateMultipleVariations model time request count = Inr rs \<longrightarrow>
      length rs = nat count)"
proof -
  let ?ps = "single_shots model request count"
  have set_iff: "(\<exists>p \<in> set ?ps. isl p) \<longleftrightarrow> (\<exists>i < nat count. isl (?ps ! i))"
    using length_single_shots[of model request count]
    by (metis in_set_conv_nth)
  show ?thesis
  proof (cases "\<exists>p \<in> set ?ps. isl p")
    case True
    then show ?thesis
      using variations_rejected[OF True, of time] set_iff by auto
  next
    case False
    then have "\<forall>p \<in> set ?ps. \<not> isl p" by simp
    from variations_fulfilled[OF this, of time] False set_iff show ?thesis
      by auto
  qed
qed

lemma generateContent_isl:
  "isl (generateContent model request) \<longleftrightarrow>
     first_text (model (buildSystemPrompt request @ [LF, LF] @ buildUserPrompt request)) = None"
  by (simp add: generateContent_def Let_def split: option.splits)

lemma single_shots_nth:
  "i < nat count \<Longrightarrow> single_shots model request count ! i =
     generateContent (model i) (request\<lparr>prompt := prompt request @ '' (Generate a unique variation)''\<rparr>)"
  by (simp add: single_shots_def)

theorem variations_all_or_nothing_witness:
  "(\<exists>i < nat 3. isl (single_shots failing_second example_request 3 ! i)) \<and>
   generateMultipleVariations failing_second (\<lambda>i. 0) example_request 3 =
     Inl (GenerationFailure ''Failed to generate content variations.'') \<and>
   list_all (\<lambda>i. \<not> isl (single_shots (\<lambda>i. always ''Hello world'') example_request 3 ! i))
     [0..<nat 3] \<and>
   (\<exists>rs. generateMultipleVariations (\<lambda>i. always ''Hello world'') (\<lambda>i. 0) example_request 3 = Inr rs
      \<and> length rs = nat 3)"
proof -
  have "isl (single_shots failing_second example_request 3 ! 1)"
    by (simp add: single_shots_nth generateContent_isl failing_second_def)
  then have bad: "\<exists>i < nat 3. isl (single_shots failing_second example_request 3 ! i)"
    by (intro exI[of _ 1]) simp
  have good: "\<forall>i < nat 3. \<not> isl (single_shots (\<lambda>i. always ''Hello world'') example_request 3 ! i)"
    by (simp add: single_shots_nth generateContent_isl always_def)
  then have good': "list_all (\<lambda>i. \<not> isl (single_shots (\<lambda>i. always ''Hello world'') example_request 3 ! i))
     [0..<nat 3]"
    by (simp add: list_all_iff)
  show ?thesis
    using bad good good'
      variations_all_or_nothing[of 3 failing_second example_request "\<lambda>i. 0"]
      variations_all_or_nothing[of 3 "\<lambda>i. always ''Hello world''" example_request "\<lambda>i. 0"]
    by blast
qed

text \<open>
  Claim C10. The service puts no bound on \<open>count\<close>: with a count of 0 (or below) it
  returns the empty list, whatever the provider would have answered, so no call
  decides the result and no failure is raised; with any count whose calls all succeed it
  returns that many suggestions. The range 2..5 is the route's, which rejects 0.
\<close>

theorem variations_count_unbounded:
  "generateMultipleVariations model time request 0 = Inr [] \<and>
   (count \<le> 0 \<longrightarrow> generateMultipleVariations model time request count = Inr []) \<and>
   ((\<forall>i < nat count. \<not> isl (single_shots model request count ! i)) \<longrightarrow>
      (\<exists>rs. generateMultipleVariations model time request count = Inr rs \<and>
         length rs = nat count)) \<and>
   \<not> variations_count_schema 0"
proof -
  have zero: "generateMultipleVariations model time request c = Inr []" if "c \<le> 0" for c
    using that by (simp add: generateMultipleVariations_def Promise_all_def)
  have "\<forall>p \<in> set (single_shots model request count). \<not> isl p"
    if "\<forall>i < nat count. \<not> isl (single_shots model request count ! i)"
    using that length_single_shots[of model request count] by (metis in_set_conv_nth)
  then show ?thesis
    using zero[of 0] zero[of count] variations_fulfilled[of model request count time]
    by (auto simp: variations_count_schema_def)
qed

theorem variations_count_unbounded_witness:
  "(- 1 :: int) \<le> 0 \<and>
   generateMultipleVariations (\<lambda>i s. Rejected) (\<lambda>i. 0) example_request (- 1) = Inr [] \<and>
   list_all (\<lambda>i. \<not> isl (single_shots (\<lambda>i. always ''Hello world'') example_request 7 ! i))
     [0..<nat 7] \<and>
   (\<exists>rs. generateMultipleVariations (\<lambda>i. always ''Hello world'') (\<lambda>i. 0) example_request 7 = Inr rs
      \<and> length rs = nat 7)"
proof -
  have good: "\<forall>i < nat 7. \<not> isl (single_shots (\<lambda>i. always ''Hello world'') example_request 7 ! i)"
    by (simp add: single_shots_nth generateContent_isl always_def)
  then have good': "list_all (\<lambda>i. \<not> isl (single_shots (\<lambda>i. always ''Hello world'') example_request 7 ! i))
     [0..<nat 7]"
    by (simp add: list_all_iff)
  show ?thesis
    using good good'
      variations_count_unbounded[of "\<lambda>i s. Rejected" "\<lambda>i. 0" example_request "- 1"]
      variations_count_unbounded[of "\<lambda>i. always ''Hello world''" "\<lambda>i. 0" example_request 7]
    by simp
qed

lemma first_text_None_iff:
  "first_text out = None \<longleftrightarrow>
     out = Rejected \<or> out = Resolved [] \<or> (\<exists>cs. out = Resolved ([] # cs)) \<or>
     (\<exists>ps cs. out = Resolved ((None # ps) # cs))"
  by (cases out rule: first_text.cases) auto

lemma generateContent_failure:
  "first_text (model (buildSystemPrompt request @ [LF, LF] @ buildUserPrompt request)) = None \<Longrightarrow>
   generateContent model request =
     Inl (GenerationFailure ''Failed to generate content. Please try again.'')"
  by (simp add: generateContent_def Let_def)

lemma generateHashtags_failure:
  "first_text (model (hashtags_prompt content' count)) = None \<Longrightarrow>
   generateHashtags model content' count = Inr []"
  by (simp add: generateHashtags_def hashtags_prompt_def Let_def)

lemma variations_failure:
  assumes "0 < n" "\<forall>s. first_text (model s) = None"
  shows "generateMultipleVariations (\<lambda>i. model) time request n =
        Inl (GenerationFailure ''Failed to generate content variations.'')"
proof -
  have "0 < nat n" using assms(1) by simp
  moreover have "isl (single_shots (\<lambda>i. model) request n ! 0)"
    using assms(2) \<open>0 < nat n\<close> by (simp add: single_shots_nth generateContent_isl)
  ultimately have "\<exists>p \<in> set (single_shots (\<lambda>i. model) request n). isl p"
    using length_single_shots[of "\<lambda>i. model" request n] by (metis nth_mem)
  then show ?thesis by (rule variations_rejected)
qed


lemma improvContent_failure:
  "\<forall>s. first_text (model s) = None \<Longrightarrow>
   improvContent model original improvement audience =
     Inl (GenerationFailure ''Failed to generate content. Please try again.'')"
  by (simp add: improvContent_def Let_def generateContent_failure)

text \<open>
  Claim C8. The provider call fails when it rejects (an error or a timeout of the client)
  or when its response has no usable candidate: no candidate, a first candidate without
  parts, or a first part without text; these are exactly the outcomes without a first
  text. On each of them \<open>generateContent\<close> fails with a \<open>GenerationFailure\<close>, and so do
  content improvement and a batch of variations, while \<open>generateHashtags\<close> returns the
  empty list; \<open>generateHashtags\<close> never fails for any provider. A response whose first part
  has a text is parsed and returned.
\<close>

theorem provider_failure_paths:
  "(first_text (model (buildSystemPrompt request @ [LF, LF] @ buildUserPrompt request)) = None \<longrightarrow>
      generateContent model request =
        Inl (GenerationFailure ''Failed to generate content. Please try again.'')) \<and>
   ((\<forall>s. first_text (model s) = None) \<longrightarrow>
      generateHashtags model content' count = Inr [] \<and>
      improvContent model content' improvement audience =
        Inl (GenerationFailure ''Failed to generate content. Please try again.'') \<and>
      (0 < n \<longrightarrow> generateMultipleVariations (\<lambda>i. model) time request n =
        Inl (GenerationFailure ''Failed to generate content variations.''))) \<and>
   (\<exists>tags. generateHashtags model content' count = Inr tags) \<and>
   (first_text out = None \<longleftrightarrow>
      out = Rejected \<or> out = Resolved [] \<or> (\<exists>cs. out = Resolved ([] # cs)) \<or>
      (\<exists>ps cs. out = Resolved ((None # ps) # cs))) \<and>
   (out = Rejected \<or> out = Resolved [] \<or> (\<exists>cs. out = Resolved ([] # cs)) \<or>
    (\<exists>ps cs. out = Resolved ((None # ps) # cs)) \<longrightarrow>
      generateContent (\<lambda>s. out) request =
        Inl (GenerationFailure ''Failed to generate content. Please try again.'') \<and>
      improvContent (\<lambda>s. out) content' improvement audience =
        Inl (GenerationFailure ''Failed to generate content. Please try again.'') \<and>
      (0 < n \<longrightarrow> generateMultipleVariations (\<lambda>i s. out) time request n =
        Inl (GenerationFailure ''Failed to generate content variations.'')) \<and>
      generateHashtags (\<lambda>s. out) content' count = Inr []) \<and>
   generateContent (\<lambda>s. Resolved ((Some raw # ps) # cs)) request =
     Inr (parseGeneratedContent raw request)"
proof -
  have old1: "first_text (model (buildSystemPrompt request @ [LF, LF] @ buildUserPrompt request)) = None \<longrightarrow>
      generateContent model request =
        Inl (GenerationFailure ''Failed to generate content. Please try again.'')"
    by (simp add: generateContent_failure)
  have old2: "(\<forall>s. first_text (model s) = None) \<longrightarrow>
      generateHashtags model content' count = Inr [] \<and>
      improvContent model content' improvement audience =
        Inl (GenerationFailure ''Failed to generate content. Please try again.'') \<and>
      (0 < n \<longrightarrow> generateMultipleVariations (\<lambda>i. model) time request n =
        Inl (GenerationFailure ''Failed to generate content variations.''))"
    by (simp add: generateHashtags_failure improvContent_failure variations_failure)
  have old3: "\<exists>tags. generateHashtags model content' count = Inr tags"
    by (simp add: generateHashtags_def Let_def split: option.splits)
  have unusable: "generateContent (\<lambda>s. out) request =
        Inl (GenerationFailure ''Failed to generate content. Please try again.'') \<and>
      improvContent (\<lambda>s. out) content' improvement audience =
        Inl (GenerationFailure ''Failed to generate content. Please try again.'') \<and>
      (0 < n \<longrightarrow> generateMultipleVariations (\<lambda>i s. out) time request n =
        Inl (GenerationFailure ''Failed to generate content variations.'')) \<and>
      generateHashtags (\<lambda>s. out) content' count = Inr []"
    if "out = Rejected \<or> out = Resolved [] \<or> (\<exists>cs. out = Resolved ([] # cs)) \<or>
      (\<exists>ps cs. out = Resolved ((None # ps) # cs))"
  proof -
    from that have "first_text out = None" by (simp only: first_text_None_iff)
    then have "\<forall>s. first_text ((\<lambda>s. out) s) = None" by simp
    then show ?thesis
      by (simp add: generateContent_failure generateHashtags_failure improvContent_failure
          variations_failure)
  qed
  have usable: "generateContent (\<lambda>s. Resolved ((Some raw # ps) # cs)) request =
     Inr (parseGeneratedContent raw request)"
    by (simp add: generateContent_def Let_def)
  show ?thesis
    using old1 old2 old3 first_text_None_iff[of out] unusable usable by blast
qed


theorem provider_failure_paths_witness:
  "first_text (Resolved [[None]]) = None \<and>
   generateContent (\<lambda>s. Resolved [[None]]) example_request =
     Inl (GenerationFailure ''Failed to generate content. Please try again.'') \<and>
   first_text (Resolved []) = None \<and> (0::int) < 3 \<and>
   generateHashtags (\<lambda>s. Resolved []) ''Spring sale launch'' 10 = Inr [] \<and>
   improvContent (\<lambda>s. Resolved []) ''Spring sale launch'' clarity None =
     Inl (GenerationFailure ''Failed to generate content. Please try again.'') \<and>
   generateMultipleVariations (\<lambda>i s. Resolved []) (\<lambda>i. 0) example_request 3 =
     Inl (GenerationFailure ''Failed to generate content variations.'') \<and>
   generateContent (\<lambda>s. Resolved [[]]) example_request =
     Inl (GenerationFailure ''Failed to generate content. Please try again.'') \<and>
   generateHashtags (\<lambda>s. Resolved [[]]) ''Spring sale launch'' 10 = Inr [] \<and>
   generateMultipleVariations (\<lambda>i s. Resolved [[]]) (\<lambda>i. 0) example_request 3 =
     Inl (GenerationFailure ''Failed to generate content variations.'') \<and>
   generateContent (\<lambda>s. Rejected) example_request =
     Inl (GenerationFailure ''Failed to generate content. Please try again.'') \<and>
   generateHashtags (\<lambda>s. Rejected) ''Spring sale launch'' 10 = Inr [] \<and>
   generateContent (\<lambda>s. Resolved [[Some ''Hello world'']]) example_request =
     Inr (parseGeneratedContent ''Hello world'' example_request)"
proof -
  note a = provider_failure_paths[where model = "\<lambda>s. Resolved [[None]]"
      and request = example_request and out = "Resolved [[]]"
      and content' = "''Spring sale launch''" and count = 10 and n = 3 and time = "\<lambda>i. 0"
      and raw = "''Hello world''" and ps = "[]" and cs = "[]"]
  note b = provider_failure_paths[where model = "\<lambda>s. Resolved []"
      and request = example_request and out = Rejected
      and content' = "''Spring sale launch''" and count = 10 and n = 3 and time = "\<lambda>i. 0"
      and improvement = clarity and audience = None]
  have n: "(0::int) < 3" by simp
  have a1: "generateContent (\<lambda>s. Resolved [[None]]) example_request =
     Inl (GenerationFailure ''Failed to generate content. Please try again.'')"
    using a[THEN conjunct1] by simp
  have a5: "generateContent (\<lambda>s. Resolved [[]]) example_request =
     Inl (GenerationFailure ''Failed to generate content. Please try again.'') \<and>
     generateMultipleVariations (\<lambda>i s. Resolved [[]]) (\<lambda>i. 0) example_request 3 =
     Inl (GenerationFailure ''Failed to generate content variations.'') \<and>
     generateHashtags (\<lambda>s. Resolved [[]]) ''Spring sale launch'' 10 = Inr []"
    using a[THEN conjunct2, THEN conjunct2, THEN conjunct2, THEN conjunct2, THEN conjunct1] n
    by simp
  have a6: "generateContent (\<lambda>s. Resolved [[Some ''Hello world'']]) example_request =
     Inr (parseGeneratedContent ''Hello world'' example_request)"
    using a[THEN conjunct2, THEN conjunct2, THEN conjunct2, THEN conjunct2, THEN conjunct2] .
  have b2: "generateHashtags (\<lambda>s. Resolved []) ''Spring sale launch'' 10 = Inr [] \<and>
   improvContent (\<lambda>s. Resolved []) ''Spring sale launch'' clarity None =
     Inl (GenerationFailure ''Failed to generate content. Please try again.'') \<and>
   generateMultipleVariations (\<lambda>i s. Resolved []) (\<lambda>i. 0) example_request 3 =
     Inl (GenerationFailure ''Failed to generate content variations.'')"
    using b[THEN conjunct2, THEN conjunct1] n by simp
  have b5: "generateContent (\<lambda>s. Rejected) example_request =
     Inl (GenerationFailure ''Failed to generate content. Please try again.'') \<and>
     generateHashtags (\<lambda>s. Rejected) ''Spring sale launch'' 10 = Inr []"
    using b[THEN conjunct2, THEN conjunct2, THEN conjunct2, THEN conjunct2, THEN conjunct1]
    by simp
  show ?thesis
    using a1 a5 a6 b2 b5 by simp
qed

section \<open>Prompt builder: exact instruction strings\<close>

text \<open>
  A target audience that is present but is the empty string gets no audience clause:
  the service tests the string for truthiness.
\<close>

theorem prompt_builder_counterexample:
  "buildSystemPrompt (example_request\<lparr>targetAudience := Some ''''\<rparr>) =
     ''You are a social media expert. Create engaging social media posts that capture attention and encourage interaction. Provide high-quality, original content that is engaging and relevant.'' \<and>
   spec_systemInstruction (example_request\<lparr>targetAudience := Some ''''\<rparr>) =
     ''You are a social media expert. Create engaging social media posts that capture attention and encourage interaction. Target audience: . Provide high-quality, original content that is engaging and relevant.'' \<and>
   buildSystemPrompt (example_request\<lparr>targetAudience := Some ''''\<rparr>) \<noteq>
     spec_systemInstruction (example_request\<lparr>targetAudience := Some ''''\<rparr>)"
  by (simp add: buildSystemPrompt_def spec_systemInstruction_def example_request_def)

text \<open>
  Claim C9, amended. The prompt builder is a function of the request alone. The system
  instruction is the role description of the content type, then the tone clause when a
  tone is present, then the audience clause when the target audience is present and not
  the empty string, then the closing instruction. The user instruction is
  \<open>Create {contentType} content based on: {prompt}\<close>, then the length clause when a
  length is present, then the clause listing the keywords joined by a comma and a space when the
  keyword list is non-empty. Equal requests give equal pairs.
\<close>

theorem prompt_builder:
  "buildSystemPrompt request =
     contentTypeInstructions (contentType request)
     @ (case tone request of Some t \<Rightarrow> '' '' @ toneInstructions t | None \<Rightarrow> [])
     @ (case targetAudience request of
          Some a \<Rightarrow> if a \<noteq> [] then '' Target audience: '' @ a @ ''.'' else []
        | None \<Rightarrow> [])
     @ '' Provide high-quality, original content that is engaging and relevant.'' \<and>
   buildUserPrompt request = spec_userInstruction request \<and>
   (targetAudience request \<noteq> Some [] \<longrightarrow>
      buildSystemPrompt request = spec_systemInstruction request) \<and>
   (request' = request \<longrightarrow>
      (buildSystemPrompt request', buildUserPrompt request') =
      (buildSystemPrompt request, buildUserPrompt request))"
  by (auto simp: buildSystemPrompt_def buildUserPrompt_def spec_systemInstruction_def
      spec_userInstruction_def Let_def split: option.splits)

theorem prompt_builder_witness:
  "targetAudience (example_request\<lparr>targetAudience := Some ''small retailers''\<rparr>) \<noteq> Some [] \<and>
   buildSystemPrompt (example_request\<lparr>targetAudience := Some ''small retailers''\<rparr>) =
     spec_systemInstruction (example_request\<lparr>targetAudience := Some ''small retailers''\<rparr>) \<and>
   buildSystemPrompt (example_request\<lparr>targetAudience := Some ''small retailers''\<rparr>) =
     ''You are a social media expert. Create engaging social media posts that capture attention and encourage interaction. Target audience: small retailers. Provide high-quality, original content that is engaging and relevant.''"
  using prompt_builder[of "example_request\<lparr>targetAudience := Some ''small retailers''\<rparr>"
      "example_request\<lparr>targetAudience := Some ''small retailers''\<rparr>"]
  by (simp add: spec_systemInstruction_def example_request_def)

section \<open>Hashtag parsing\<close>

lemma generateHashtags_success:
  "first_text (model (hashtags_prompt content' count)) = Some raw \<Longrightarrow>
   generateHashtags model content' count =
     Inr (slice0 count (filter (\<lambda>t. t \<noteq> [])
       (map (\<lambda>t. remove1 (CHR ''#'') (trim t)) (split (CHR '','') raw))))"
  by (simp add: generateHashtags_def hashtags_prompt_def Let_def)

lemma remove1_leading_hash:
  "CHR ''#'' \<notin> set (tl s) \<Longrightarrow> remove1 (CHR ''#'') s = strip_leading_hash s"
  by (cases s) (auto simp: strip_leading_hash_def remove1_idem)

text \<open>
  The service removes the first hash character of a token wherever it stands, so the
  tag \<open>c#\<close> loses its final character; and a negative count cuts from the end of the
  list instead of bounding its length.
\<close>

theorem hashtags_counterexample:
  "generateHashtags (always ''c#, dotnet'') ''Learn C# today'' 10 = Inr [''c'', ''dotnet''] \<and>
   spec_hashtags 10 ''c#, dotnet'' = [''c#'', ''dotnet''] \<and>
   generateHashtags (always ''sale,deals,retail'') ''Spring sale'' (- 1) = Inr [''sale'', ''deals''] \<and>
   \<not> int (length [''sale'', ''deals'']) \<le> - 1"
  by (simp add: generateHashtags_def always_def spec_hashtags_def strip_leading_hash_def
      trim_def isWhiteSpace_def slice0_def Let_def)

text \<open>
  Claim C7, amended. On a successful provider response \<open>generateHashtags\<close> splits the
  text on commas, trims each token, removes the first hash character occurring in the
  token (the leading one when the token starts with it), drops the empty tokens and
  slices to the requested count; for a count \<open>N \<ge> 0\<close> these are the first \<open>N\<close> tokens and
  never more than \<open>N\<close>. When no trimmed token has a hash character after its first
  character this is the parsing of the specification. The text
  \<open>#sale, #deals , #retail\<close> with count 2 gives \<open>sale\<close> and \<open>deals\<close>.
\<close>

theorem hashtags_parsing:
  "(first_text (model (hashtags_prompt content' count)) = Some raw \<longrightarrow>
      generateHashtags model content' count =
        Inr (slice0 count (filter (\<lambda>t. t \<noteq> [])
          (map (\<lambda>t. remove1 (CHR ''#'') (trim t)) (split (CHR '','') raw))))) \<and>
   (first_text (model (hashtags_prompt content' count)) = Some raw \<and> 0 \<le> count \<longrightarrow>
      (\<exists>tags. generateHashtags model content' count = Inr tags \<and>
         int (length tags) \<le> count \<and>
         tags = take (nat count) (filter (\<lambda>t. t \<noteq> [])
           (map (\<lambda>t. remove1 (CHR ''#'') (trim t)) (split (CHR '','') raw))))) \<and>
   (first_text (model (hashtags_prompt content' count)) = Some raw \<and> 0 \<le> count \<and>
    (\<forall>t \<in> set (split (CHR '','') raw). CHR ''#'' \<notin> set (tl (trim t))) \<longrightarrow>
      generateHashtags model content' count = Inr (spec_hashtags count raw)) \<and>
   generateHashtags (always ''#sale, #deals , #retail'') content' 2 = Inr [''sale'', ''deals'']"
proof -
  let ?tokens = "map (\<lambda>t. remove1 (CHR ''#'') (trim t)) (split (CHR '','') raw)"
  have ex: "generateHashtags (always ''#sale, #deals , #retail'') content' 2 = Inr [''sale'', ''deals'']"
    by (simp add: generateHashtags_def always_def trim_def isWhiteSpace_def slice0_def Let_def)
  have agree: "?tokens = map (\<lambda>t. strip_leading_hash (trim t)) (split (CHR '','') raw)"
    if "\<forall>t \<in> set (split (CHR '','') raw). CHR ''#'' \<notin> set (tl (trim t))"
    using that by (simp add: remove1_leading_hash)
  have c3: "generateHashtags model content' count = Inr (spec_hashtags count raw)"
    if "first_text (model (hashtags_prompt content' count)) = Some raw" "0 \<le> count"
      "\<forall>t \<in> set (split (CHR '','') raw). CHR ''#'' \<notin> set (tl (trim t))"
    unfolding generateHashtags_success[of model content' count raw, OF that(1)] spec_hashtags_def agree[OF that(3)]
    using that(2) by (simp add: slice0_def)
  have c2: "\<exists>tags. generateHashtags model content' count = Inr tags \<and>
         int (length tags) \<le> count \<and> tags = take (nat count) (filter (\<lambda>t. t \<noteq> []) ?tokens)"
    if "first_text (model (hashtags_prompt content' count)) = Some raw" "0 \<le> count"
    unfolding generateHashtags_success[of model content' count raw, OF that(1)]
    using that(2) by (simp add: slice0_def)
  show ?thesis
    using ex c2 c3 generateHashtags_success[of model content' count raw] by blast
qed

theorem hashtags_parsing_witness:
  "first_text (always ''#sale, #deals , #retail'' (hashtags_prompt ''Spring sale'' 2))
     = Some ''#sale, #deals , #retail'' \<and> (0::int) \<le> 2 \<and>
   list_all (\<lambda>t. CHR ''#'' \<notin> set (tl (trim t))) (split (CHR '','') ''#sale, #deals , #retail'') \<and>
   generateHashtags (always ''#sale, #deals , #retail'') ''Spring sale'' 2
     = Inr (spec_hashtags 2 ''#sale, #deals , #retail'') \<and>
   spec_hashtags 2 ''#sale, #deals , #retail'' = [''sale'', ''deals'']"
proof -
  have a: "first_text (always ''#sale, #deals , #retail'' (hashtags_prompt ''Spring sale'' 2))
     = Some ''#sale, #deals , #retail''"
    by (simp add: always_def)
  have b: "list_all (\<lambda>t. CHR ''#'' \<notin> set (tl (trim t))) (split (CHR '','') ''#sale, #deals , #retail'')"
    by (simp add: trim_def isWhiteSpace_def)
  then have b': "\<forall>t \<in> set (split (CHR '','') ''#sale, #deals , #retail''). CHR ''#'' \<notin> set (tl (trim t))"
    unfolding list_all_iff .
  have c: "spec_hashtags 2 ''#sale, #deals , #retail'' = [''sale'', ''deals'']"
    by (simp add: spec_hashtags_def strip_leading_hash_def trim_def isWhiteSpace_def)
  have d: "(0::int) \<le> 2" by simp
  have "generateHashtags (always ''#sale, #deals , #retail'') ''Spring sale'' 2
     = Inr (spec_hashtags 2 ''#sale, #deals , #retail'')"
    using hashtags_parsing[of "always ''#sale, #deals , #retail''" "''Spring sale''" 2
        "''#sale, #deals , #retail''"] a b' d
    by blast
  then show ?thesis
    using a b c d by blast
qed

section \<open>Output parser\<close>

lemma all_dropWhile_iff: "(\<forall>x \<in> set (dropWhile P s). P x) \<longleftrightarrow> (\<forall>x \<in> set s. P x)"
proof
  assume all: "\<forall>x \<in> set (dropWhile P s). P x"
  have "dropWhile P s = []"
  proof (rule ccontr)
    assume ne: "dropWhile P s \<noteq> []"
    then have "\<not> P (hd (dropWhile P s))" by (rule hd_dropWhile)
    with all ne show False by (metis hd_in_set)
  qed
  then show "\<forall>x \<in> set s. P x" by (simp add: dropWhile_eq_Nil_conv)
next
  assume "\<forall>x \<in> set s. P x"
  then show "\<forall>x \<in> set (dropWhile P s). P x" by (meson set_dropWhileD)
qed

lemma trim_eq_Nil_iff: "trim s = [] \<longleftrightarrow> (\<forall>c \<in> set s. isWhiteSpace c)"
  by (simp add: trim_def dropWhile_eq_Nil_conv all_dropWhile_iff)

lemma trim_fixed:
  assumes "s \<noteq> []" "\<not> isWhiteSpace (hd s)" "\<not> isWhiteSpace (last s)"
  shows "trim s = s"
proof -
  from assms have "dropWhile isWhiteSpace s = s"
    by (cases s) auto
  moreover from assms have "dropWhile isWhiteSpace (rev s) = rev s"
    by (cases "rev s") (auto simp: last_rev[symmetric] hd_rev simp del: last_rev)
  ultimately show ?thesis by (simp add: trim_def)
qed

lemma trim_hd: "trim s \<noteq> [] \<Longrightarrow> \<not> isWhiteSpace (hd (trim s))"
proof -
  assume ne: "trim s \<noteq> []"
  let ?d = "dropWhile isWhiteSpace s"
  have d: "?d \<noteq> []"
  proof
    assume "?d = []"
    with ne show False by (simp add: trim_def del: dropWhile_eq_Nil_conv)
  qed
  have "\<not> isWhiteSpace (hd ?d)" using d by (rule hd_dropWhile)
  moreover have "trim s = rev (dropWhile isWhiteSpace (rev ?d))" by (simp add: trim_def)
  moreover have "hd (rev (dropWhile isWhiteSpace (rev ?d))) = hd ?d"
  proof -
    obtain ys zs where "rev ?d = ys @ zs" "dropWhile isWhiteSpace (rev ?d) = zs"
      by (metis takeWhile_dropWhile_id)
    then have "?d = rev zs @ rev ys" by (metis rev_append rev_rev_ident)
    moreover have "zs \<noteq> []" using ne \<open>dropWhile isWhiteSpace (rev ?d) = zs\<close> by (auto simp: trim_def)
    ultimately show ?thesis using \<open>dropWhile isWhiteSpace (rev ?d) = zs\<close> by simp
  qed
  ultimately show ?thesis by simp
qed

lemma trim_last: "trim s \<noteq> [] \<Longrightarrow> \<not> isWhiteSpace (last (trim s))"
proof -
  assume ne: "trim s \<noteq> []"
  let ?r = "dropWhile isWhiteSpace (rev (dropWhile isWhiteSpace s))"
  have "?r \<noteq> []" using ne by (simp add: trim_def)
  then have "\<not> isWhiteSpace (hd ?r)" by (rule hd_dropWhile)
  then show ?thesis using \<open>?r \<noteq> []\<close> by (simp add: trim_def last_rev)
qed

lemma trim_idem: "trim (trim s) = trim s"
  by (cases "trim s = []") (auto simp: trim_fixed trim_hd trim_last, simp add: trim_def)

lemma hd_join: "ls \<noteq> [] \<Longrightarrow> hd ls \<noteq> [] \<Longrightarrow> hd (join sep ls) = hd (hd ls)"
  by (induction sep ls rule: join.induct) auto

lemma join_nonempty: "ls \<noteq> [] \<Longrightarrow> last ls \<noteq> [] \<Longrightarrow> join sep ls \<noteq> []"
  by (induction sep ls rule: join.induct) auto

lemma last_join:
  "ls \<noteq> [] \<Longrightarrow> last ls \<noteq> [] \<Longrightarrow> last (join sep ls) = last (last ls)"
  by (induction sep ls rule: join.induct) (auto simp: join_nonempty)

lemma trimmed_ends:
  assumes "trim l = l" "l \<noteq> []"
  shows "\<not> isWhiteSpace (hd l)" "\<not> isWhiteSpace (last l)"
  using assms trim_hd[of l] trim_last[of l] by auto

lemma trim_join_trimmed:
  assumes "ls \<noteq> []" "\<forall>l \<in> set ls. trim l = l \<and> l \<noteq> []"
  shows "trim (join [LF] ls) = join [LF] ls"
proof (rule trim_fixed)
  have h: "hd ls \<in> set ls" and l: "last ls \<in> set ls" using assms(1) by auto
  show "join [LF] ls \<noteq> []" using assms l by (intro join_nonempty) auto
  show "\<not> isWhiteSpace (hd (join [LF] ls))"
    using assms h trimmed_ends(1)[of "hd ls"] by (simp add: hd_join)
  show "\<not> isWhiteSpace (last (join [LF] ls))"
    using assms l trimmed_ends(2)[of "last ls"] by (simp add: last_join)
qed

lemma parse_fields:
  "title (parseGeneratedContent raw request) =
     (if 2 \<le> length (kept_lines raw) \<and> length (hd (kept_lines raw)) < 100 \<and>
         startsUpper (hd (kept_lines raw))
      then Some (trim (hd (kept_lines raw))) else None)"
  "content (parseGeneratedContent raw request) =
     (if 2 \<le> length (kept_lines raw) \<and> length (hd (kept_lines raw)) < 100 \<and>
         startsUpper (hd (kept_lines raw))
      then trim (join [LF] (tl (kept_lines raw))) else trim raw)"
  "confidence (parseGeneratedContent raw request) =
     calculateConfidence (content (parseGeneratedContent raw request)) request"
  by (auto simp: parseGeneratedContent_def kept_lines_def Let_def)

lemma filter_map_fixed:
  "\<forall>l \<in> set xs. f l = l \<Longrightarrow> filter P (map f xs) = filter (\<lambda>l. P (f l)) xs"
  by (induction xs) auto

lemma spec_parse_agrees:
  assumes "\<forall>l \<in> set (split LF raw). trim l = l"
  shows "(title (parseGeneratedContent raw request), content (parseGeneratedContent raw request))
           = spec_parse raw"
proof -
  let ?ls = "kept_lines raw"
  have lines: "filter (\<lambda>l. l \<noteq> []) (map trim (split LF raw)) = ?ls"
    using filter_map_fixed[OF assms, of "\<lambda>l. l \<noteq> []"] by (simp add: kept_lines_def)
  have fixed: "\<forall>l \<in> set ?ls. trim l = l \<and> l \<noteq> []"
    using assms by (auto simp: kept_lines_def)
  show ?thesis
  proof (cases "2 \<le> length ?ls \<and> length (hd ?ls) < 100 \<and> startsUpper (hd ?ls)")
    case True
    then have ne: "?ls \<noteq> []" and tl_ne: "tl ?ls \<noteq> []"
      by (cases ?ls; cases "tl ?ls"; auto)+
    have "trim (hd ?ls) = hd ?ls" using fixed ne by simp
    moreover have "trim (join [LF] (tl ?ls)) = join [LF] (tl ?ls)"
      using fixed tl_ne by (intro trim_join_trimmed) (auto dest: list.set_sel(2)[OF ne])
    ultimately show ?thesis
      using True by (simp add: parse_fields spec_parse_def lines Let_def)
  next
    case False
    then show ?thesis
      by (auto simp: parse_fields spec_parse_def lines Let_def)
  qed
qed

lemma split_no_separator: "c \<notin> set s \<Longrightarrow> split c s = [s]"
  by (induction s) auto

text \<open>
  The service tests the untrimmed first line: a first line that starts with a space is
  no title, although its trimmed form starts with an uppercase letter.
\<close>

theorem output_parser_counterexample:
  "title (parseGeneratedContent ('' Great News'' @ [LF] @ ''This is the body.'') example_request)
     = None \<and>
   content (parseGeneratedContent ('' Great News'' @ [LF] @ ''This is the body.'') example_request)
     = ''Great News'' @ [LF] @ ''This is the body.'' \<and>
   spec_parse ('' Great News'' @ [LF] @ ''This is the body.'')
     = (Some ''Great News'', ''This is the body.'')"
  by (simp add: parse_fields kept_lines_def spec_parse_def trim_def isWhiteSpace_def LF_def
      startsUpper_def Let_def)

text \<open>
  Claim C4, amended. The output parser splits the raw text at line breaks and keeps the
  lines that are not empty after trimming, without trimming them. Exactly when at least
  two lines are kept, the first kept line as it stands is shorter than 100 characters and
  its first character is one of A-Z, the title is the trimmed first kept line and the
  content is the other kept lines joined by line breaks and trimmed as a whole; otherwise
  there is no title and the content is the trimmed raw text. When no line of the raw text
  has white space at its ends, this is the parser of the specification. A text of one
  line has no title, a first kept line of 100 or more characters gives no title, and
  \<open>Great News\<close>, line break, \<open>This is the body.\<close> gives that title and that content.
\<close>

theorem output_parser:
  "title (parseGeneratedContent raw request) =
     (if 2 \<le> length (kept_lines raw) \<and> length (hd (kept_lines raw)) < 100 \<and>
         startsUpper (hd (kept_lines raw))
      then Some (trim (hd (kept_lines raw))) else None) \<and>
   content (parseGeneratedContent raw request) =
     (if 2 \<le> length (kept_lines raw) \<and> length (hd (kept_lines raw)) < 100 \<and>
         startsUpper (hd (kept_lines raw))
      then trim (join [LF] (tl (kept_lines raw))) else trim raw) \<and>
   ((\<forall>l \<in> set (split LF raw). trim l = l) \<longrightarrow>
      (title (parseGeneratedContent raw request), content (parseGeneratedContent raw request))
        = spec_parse raw) \<and>
   (LF \<notin> set raw \<longrightarrow>
      title (parseGeneratedContent raw request) = None \<and>
      content (parseGeneratedContent raw request) = trim raw) \<and>
   (100 \<le> length (hd (kept_lines raw)) \<longrightarrow> title (parseGeneratedContent raw request) = None) \<and>
   title (parseGeneratedContent (''Great News'' @ [LF] @ ''This is the body.'') request)
     = Some ''Great News'' \<and>
   content (parseGeneratedContent (''Great News'' @ [LF] @ ''This is the body.'') request)
     = ''This is the body.''"
proof -
  have single: "title (parseGeneratedContent raw request) = None \<and>
      content (parseGeneratedContent raw request) = trim raw" if "LF \<notin> set raw"
    using split_no_separator[OF that] by (simp add: parse_fields kept_lines_def)
  have example: "title (parseGeneratedContent (''Great News'' @ [LF] @ ''This is the body.'') request)
     = Some ''Great News'' \<and>
   content (parseGeneratedContent (''Great News'' @ [LF] @ ''This is the body.'') request)
     = ''This is the body.''"
    by (simp add: parse_fields kept_lines_def trim_def isWhiteSpace_def LF_def startsUpper_def)
  show ?thesis
    using single example spec_parse_agrees[of raw request] parse_fields(1,2)[of raw request]
    by auto
qed

theorem output_parser_witness:
  "list_all (\<lambda>l. trim l = l) (split LF (''Great News'' @ [LF] @ ''This is the body.'')) \<and>
   (title (parseGeneratedContent (''Great News'' @ [LF] @ ''This is the body.'') example_request),
    content (parseGeneratedContent (''Great News'' @ [LF] @ ''This is the body.'') example_request))
     = spec_parse (''Great News'' @ [LF] @ ''This is the body.'') \<and>
   LF \<notin> set ''  Only one line. '' \<and>
   title (parseGeneratedContent ''  Only one line. '' example_request) = None \<and>
   content (parseGeneratedContent ''  Only one line. '' example_request) = ''Only one line.'' \<and>
   100 \<le> length (hd (kept_lines (replicate 100 (CHR ''A'') @ [LF] @ ''This is the body.''))) \<and>
   title (parseGeneratedContent (replicate 100 (CHR ''A'') @ [LF] @ ''This is the body.'')
     example_request) = None"
proof -
  let ?a = "''Great News'' @ [LF] @ ''This is the body.''"
  let ?c = "replicate 100 (CHR ''A'') @ [LF] @ ''This is the body.''"
  have a: "list_all (\<lambda>l. trim l = l) (split LF ?a)"
    by (simp add: trim_def isWhiteSpace_def LF_def)
  then have a': "\<forall>l \<in> set (split LF ?a). trim l = l"
    unfolding list_all_iff .
  have b: "LF \<notin> set ''  Only one line. ''"
    by (simp add: LF_def)
  have b': "trim ''  Only one line. '' = ''Only one line.''"
    by (simp add: trim_def isWhiteSpace_def)
  have c: "100 \<le> length (hd (kept_lines ?c))"
    by code_simp
  note agree = output_parser[THEN conjunct2, THEN conjunct2, THEN conjunct1, THEN mp]
  note single = output_parser[THEN conjunct2, THEN conjunct2, THEN conjunct2, THEN conjunct1,
      THEN mp]
  note long = output_parser[THEN conjunct2, THEN conjunct2, THEN conjunct2, THEN conjunct2,
      THEN conjunct1, THEN mp]
  have r1: "(title (parseGeneratedContent ?a example_request),
      content (parseGeneratedContent ?a example_request)) = spec_parse ?a"
    using a' by (rule agree)
  have r2: "title (parseGeneratedContent ''  Only one line. '' example_request) = None \<and>
      content (parseGeneratedContent ''  Only one line. '' example_request)
        = trim ''  Only one line. ''"
    using b by (rule single)
  have r3: "title (parseGeneratedContent ?c example_request) = None"
    using c by (rule long)
  show ?thesis
    using a b c r1 r2 r3 unfolding b' by blast
qed

section \<open>Rounding to double precision\<close>

lemma two_powi_pos: "0 < (2::rat) powi k"
  by (simp add: zero_less_power_int)

lemma bitlen_two_powi:
  assumes "0 < p"
  shows "(2::rat) powi (bitlen p - 1) \<le> of_int p" "of_int p < (2::rat) powi (bitlen p)"
proof -
  have b: "1 \<le> bitlen p" using assms by (simp add: bitlen_ge_iff_power)
  from bitlen_bounds[OF assms] have lo: "2 ^ nat (bitlen p - 1) \<le> p" and hi: "p < 2 ^ nat (bitlen p)"
    by auto
  have "(2::rat) powi (bitlen p - 1) = of_int (2 ^ nat (bitlen p - 1))"
    using b by (simp add: power_int_nonneg_exp)
  also have "\<dots> \<le> of_int p" using lo by (simp only: of_int_le_iff)
  finally show "(2::rat) powi (bitlen p - 1) \<le> of_int p" .
  have "(of_int p :: rat) < of_int (2 ^ nat (bitlen p))" using hi by (simp only: of_int_less_iff)
  also have "\<dots> = 2 powi (bitlen p)" using b by (simp add: power_int_nonneg_exp)
  finally show "of_int p < (2::rat) powi (bitlen p)" .
qed

lemma expo_bounds:
  assumes "0 < x"
  shows "2 powi (expo x) \<le> x" "x < 2 powi (expo x + 1)"
proof -
  obtain p q where pq: "quotient_of x = (p, q)" by (cases "quotient_of x")
  have q: "0 < q" by (rule quotient_of_denom_pos[OF pq])
  have x: "x = of_int p / of_int q" by (rule quotient_of_div[OF pq])
  have p: "0 < p" using assms q x by (simp add: zero_less_divide_iff)
  define d where "d = bitlen p - bitlen q"
  have "2 powi (d - 1) = (2::rat) powi (bitlen p - 1) / 2 powi (bitlen q)"
    unfolding d_def using power_int_diff[of "2::rat" "bitlen p - 1" "bitlen q"] by (simp add: algebra_simps)
  also have "\<dots> < of_int p / of_int q"
    using bitlen_two_powi[OF p] bitlen_two_powi[OF q] q two_powi_pos
    by (intro frac_less2) auto
  finally have lo: "2 powi (d - 1) < x" using x by simp
  have "x = of_int p / of_int q" by (rule x)
  also have "\<dots> < (2::rat) powi (bitlen p) / 2 powi (bitlen q - 1)"
    using bitlen_two_powi[OF p] bitlen_two_powi[OF q] p two_powi_pos
    by (intro frac_less) auto
  also have "\<dots> = 2 powi (d + 1)"
    unfolding d_def using power_int_diff[of "2::rat" "bitlen p" "bitlen q - 1"] by (simp add: algebra_simps)
  finally have hi: "x < 2 powi (d + 1)" .
  have e: "expo x = (if 2 powi d \<le> x then d else d - 1)"
    by (simp add: expo_def pq d_def Let_def)
  show "2 powi (expo x) \<le> x" using lo by (simp add: e)
  show "x < 2 powi (expo x + 1)" using hi by (simp add: e)
qed

lemma expo_unique:
  assumes "0 < x" "2 powi k \<le> x" "x < 2 powi (k + 1)"
  shows "expo x = k"
proof (rule antisym)
  have "(2::rat) powi (expo x) < 2 powi (k + 1)"
    using expo_bounds(1)[OF assms(1)] assms(3) by simp
  then have "expo x < k + 1"
    by (metis power_int_increasing not_le one_le_numeral leI)
  then show "expo x \<le> k" by simp
  have "(2::rat) powi k < 2 powi (expo x + 1)"
    using expo_bounds(2)[OF assms(1)] assms(2) by simp
  then have "k < expo x + 1"
    by (metis power_int_increasing not_le one_le_numeral leI)
  then show "k \<le> expo x" by simp
qed

lemma round_even_cases: "round_even y = \<lfloor>y\<rfloor> \<or> (round_even y = \<lfloor>y\<rfloor> + 1 \<and> of_int \<lfloor>y\<rfloor> < y)"
  by (auto simp: round_even_def Let_def)

lemma round_even_of_int: "round_even (of_int n) = n"
  by (simp add: round_even_def)

lemma round_even_ge: "of_int n \<le> y \<Longrightarrow> n \<le> round_even y"
proof -
  assume "of_int n \<le> y"
  then have "n \<le> \<lfloor>y\<rfloor>" by (simp add: le_floor_iff)
  then show ?thesis using round_even_cases[of y] by auto
qed

lemma round_even_le: "y \<le> of_int n \<Longrightarrow> round_even y \<le> n"
proof -
  assume le: "y \<le> of_int n"
  then have f: "\<lfloor>y\<rfloor> \<le> n" by (simp add: floor_le_iff)
  show ?thesis
  proof (cases "round_even y = \<lfloor>y\<rfloor>")
    case True
    with f show ?thesis by simp
  next
    case False
    with round_even_cases[of y] have r: "round_even y = \<lfloor>y\<rfloor> + 1" and lt: "of_int \<lfloor>y\<rfloor> < y"
      by auto
    from lt le have "(of_int \<lfloor>y\<rfloor> :: rat) < of_int n" by simp
    then have "\<lfloor>y\<rfloor> < n" by (simp only: of_int_less_iff)
    with r show ?thesis by simp
  qed
qed

lemma rnd_positive_form:
  assumes "0 < x"
  defines "m \<equiv> round_even (x / 2 powi (expo x - 52))"
  shows "rnd x = of_int m * 2 powi (expo x - 52)" "2 ^ 52 \<le> m" "m \<le> 2 ^ 53"
proof -
  let ?u = "(2::rat) powi (expo x - 52)"
  have u: "0 < ?u" by (rule two_powi_pos)
  show "rnd x = of_int m * ?u"
    using assms by (simp add: rnd_def Let_def)
  have "(2::rat) powi (expo x) = 2 ^ 52 * ?u"
    using power_int_add[of "2::rat" 52 "expo x - 52"] by simp
  then have lo: "2 ^ 52 \<le> x / ?u"
    using expo_bounds(1)[OF assms(1)] u by (simp add: le_divide_eq)
  have "(2::rat) powi (expo x + 1) = 2 ^ 53 * ?u"
    using power_int_add[of "2::rat" 53 "expo x - 52"] by (simp add: add.commute)
  then have hi: "x / ?u \<le> 2 ^ 53"
    using expo_bounds(2)[OF assms(1)] u by (simp add: divide_le_eq)
  have "(of_int (2 ^ 52) :: rat) \<le> x / ?u" using lo by simp
  then show "2 ^ 52 \<le> m" unfolding m_def by (rule round_even_ge)
  have "x / ?u \<le> (of_int (2 ^ 53) :: rat)" using hi by simp
  then show "m \<le> 2 ^ 53" unfolding m_def by (rule round_even_le)
qed

lemma rnd_nonneg: "0 \<le> x \<Longrightarrow> 0 \<le> rnd x"
proof (cases "x = 0")
  case True
  then show ?thesis by (simp add: rnd_def)
next
  case False
  assume "0 \<le> x"
  with False have "0 < x" by simp
  from rnd_positive_form[OF this] two_powi_pos[of "expo x - 52"] show ?thesis
    by simp
qed

lemma rnd_significand:
  assumes "2 ^ 52 \<le> m" "m < 2 ^ 53"
  shows "rnd (of_int m * 2 powi k) = of_int m * 2 powi k"
proof -
  let ?x = "of_int m * (2::rat) powi k"
  have u: "0 < (2::rat) powi k" by (rule two_powi_pos)
  have m: "(2::rat) ^ 52 \<le> of_int m" "(of_int m :: rat) < 2 ^ 53"
    using assms by (metis of_int_le_iff of_int_numeral of_int_power, metis of_int_less_iff of_int_numeral of_int_power)
  have pos: "0 < ?x" using u m(1) by (simp add: zero_less_mult_iff)
  have "(2::rat) powi (k + 52) = 2 ^ 52 * 2 powi k"
    using power_int_add[of "2::rat" 52 k] by (simp add: add.commute)
  then have lo: "2 powi (k + 52) \<le> ?x" using m(1) u by simp
  have "(2::rat) powi (k + 52 + 1) = 2 ^ 53 * 2 powi k"
    using power_int_add[of "2::rat" 53 k] by (simp add: add.commute)
  then have hi: "?x < 2 powi (k + 52 + 1)" using m(2) u by simp
  have e: "expo ?x = k + 52" by (rule expo_unique[OF pos lo hi])
  have "?x / 2 powi k = of_int m" using u by simp
  then show ?thesis
    using pos by (simp add: rnd_def e Let_def round_even_of_int)
qed

lemma rnd_idem: "0 \<le> x \<Longrightarrow> rnd (rnd x) = rnd x"
proof (cases "x = 0")
  case True
  then show ?thesis by (simp add: rnd_def)
next
  case False
  assume "0 \<le> x"
  with False have pos: "0 < x" by simp
  define m where "m = round_even (x / 2 powi (expo x - 52))"
  note f = rnd_positive_form[OF pos, folded m_def]
  show ?thesis
  proof (cases "m < 2 ^ 53")
    case True
    then show ?thesis using f(1,2) rnd_significand[of m "expo x - 52"] by simp
  next
    case False
    with f(3) have m: "m = 2 ^ 53" by simp
    have "rnd x = of_int (2 ^ 52) * 2 powi (expo x - 51)"
      using power_int_add[of "2::rat" 1 "expo x - 52"] by (simp add: f(1) m)
    then show ?thesis using rnd_significand[of "2 ^ 52" "expo x - 51"] by simp
  qed
qed

lemma rnd_le_one:
  assumes "0 \<le> x" "x \<le> 1"
  shows "rnd x \<le> 1"
proof -
  consider "x = 0" | "x = 1" | "0 < x" "x < 1" using assms by fastforce
  then show ?thesis
  proof cases
    case 1
    then show ?thesis by (simp add: rnd_def)
  next
    case 2
    have "rnd (of_int (2 ^ 52) * 2 powi (- 52)) = of_int (2 ^ 52) * 2 powi (- 52)"
      by (rule rnd_significand) simp_all
    then show ?thesis using 2 by (simp add: power_int_minus)
  next
    case 3
    have "(2::rat) powi (expo x) < 2 powi 0"
      using expo_bounds(1)[OF 3(1)] 3(2) by simp
    then have "expo x < 0"
      by (metis power_int_increasing not_le one_le_numeral leI)
    then have "(2::rat) powi (expo x + 1) \<le> 2 powi 0"
      by (intro power_int_increasing) auto
    moreover have "rnd x \<le> 2 powi (expo x + 1)"
    proof -
      define m where "m = round_even (x / 2 powi (expo x - 52))"
      note f = rnd_positive_form[OF 3(1), folded m_def]
      have "(of_int m :: rat) \<le> 2 ^ 53" using f(3)
        by (metis of_int_le_iff of_int_numeral of_int_power)
      then have "of_int m * (2::rat) powi (expo x - 52) \<le> 2 ^ 53 * 2 powi (expo x - 52)"
        using two_powi_pos[of "expo x - 52"] by simp
      also have "\<dots> = 2 powi (expo x + 1)"
        using power_int_add[of "2::rat" 53 "expo x - 52"] by (simp add: add.commute)
      finally show ?thesis by (simp add: f(1))
    qed
    ultimately show ?thesis by simp
  qed
qed

section \<open>Confidence scorer\<close>

lemma num_mul_commute: "num_mul a b = num_mul b a"
  by (cases a; cases b) (simp_all add: mult.commute)

lemma score_base: "Math_min (lit (8 / 10)) (lit 1) = lit (8 / 10)"
  by code_simp

lemma score_fitted: "Math_min (num_add (lit (8 / 10)) (lit (1 / 10))) (lit 1) = lit (9 / 10)"
  by code_simp

text \<open>
  Claim C3 fails on the code. A request whose keyword list is present and empty enters
  the keyword branch of \<open>calculateConfidence\<close>, which divides 0 by 0: the score is \<open>NaN\<close>,
  not a number at most 1. The user prompt of \<open>buildUserPrompt\<close> treats the same empty list
  as absent.
\<close>

theorem empty_keywords_score:
  "generateContent (always ''Spring is here'') (example_request\<lparr>keywords' := Some []\<rparr>) =
     Inr \<lparr>content = ''Spring is here'', title = None, hashtags = None, confidence = NaN,
          alternatives = None\<rparr> \<and>
   buildUserPrompt (example_request\<lparr>keywords' := Some []\<rparr>) = buildUserPrompt example_request"
  by (simp add: generateContent_def always_def parseGeneratedContent_def calculateConfidence_def
      buildUserPrompt_def example_request_def trim_def isWhiteSpace_def LF_def of_count_def
      lit_def Let_def)

section \<open>Score range and variation decay\<close>

lemma in_unit_Fin: "in_unit x \<longleftrightarrow> (\<exists>a. x = Fin a \<and> 0 \<le> a \<and> a \<le> 1)"
  by (cases x) (simp_all add: in_unit_def)

lemma fin_nonnegE: "fin_nonneg x \<Longrightarrow> (\<And>a. x = Fin a \<Longrightarrow> 0 \<le> a \<Longrightarrow> rnd a = a \<Longrightarrow> P) \<Longrightarrow> P"
  by (cases x) (simp_all add: fin_nonneg_def)

lemma fin_nonneg_rnd: "0 \<le> z \<Longrightarrow> fin_nonneg (Fin (rnd z))"
  by (simp add: fin_nonneg_def rnd_nonneg rnd_idem)

lemma fin_nonneg_lit: "0 \<le> q \<Longrightarrow> fin_nonneg (lit q)"
  by (simp add: lit_def fin_nonneg_rnd)

lemma fin_nonneg_add: "fin_nonneg a \<Longrightarrow> fin_nonneg b \<Longrightarrow> fin_nonneg (num_add a b)"
  by (elim fin_nonnegE) (simp add: fin_nonneg_rnd)

lemma fin_nonneg_mul: "fin_nonneg a \<Longrightarrow> fin_nonneg b \<Longrightarrow> fin_nonneg (num_mul a b)"
  by (elim fin_nonnegE) (simp add: fin_nonneg_rnd)

lemma fin_nonneg_div_count: "0 < n \<Longrightarrow> fin_nonneg (num_div (of_count k) (of_count n))"
  by (simp add: of_count_def fin_nonneg_rnd)

lemma rnd_one: "rnd 1 = 1"
  by code_simp

lemma min_one: "fin_nonneg a \<Longrightarrow> fin_nonneg (Math_min a (lit 1)) \<and> in_unit (Math_min a (lit 1))"
  by (elim fin_nonnegE) (auto simp: lit_def rnd_one fin_nonneg_def in_unit_def)

lemma num_mul_one: "fin_nonneg c \<or> c = NaN \<Longrightarrow> num_mul c (Fin 1) = c"
  by (auto elim!: fin_nonnegE)

lemma calculateConfidence_nan:
  "keywords' request = Some [] \<Longrightarrow> calculateConfidence content' request = NaN"
proof -
  assume k: "keywords' request = Some []"
  have "num_add c (num_mul (num_div (of_count 0) (of_count 0)) (lit (1 / 10))) = NaN" for c
    by (cases c) (simp_all add: of_count_def)
  then show ?thesis
    by (simp add: calculateConfidence_def k Let_def)
qed

lemma calculateConfidence_fin:
  assumes "keywords' request \<noteq> Some []"
  shows "fin_nonneg (calculateConfidence content' request)"
    and "in_unit (calculateConfidence content' request)"
proof -
  define fitted where "fitted =
     (if length' request = Some short \<and> length (split (CHR '' '') content') \<le> 50
        then num_add (lit (8 / 10)) (lit (1 / 10))
      else if length' request = Some medium \<and> 50 < length (split (CHR '' '') content')
          \<and> length (split (CHR '' '') content') \<le> 200
        then num_add (lit (8 / 10)) (lit (1 / 10))
      else if length' request = Some long \<and> 200 < length (split (CHR '' '') content')
        then num_add (lit (8 / 10)) (lit (1 / 10))
      else lit (8 / 10))"
  have f: "fin_nonneg fitted"
    unfolding fitted_def by (simp add: fin_nonneg_add fin_nonneg_lit)
  define covered where "covered = (case keywords' request of
      Some ks \<Rightarrow> num_add fitted
        (num_mul (num_div (of_count (length (filter (\<lambda>keyword.
            includes_str (toLowerCase content') (toLowerCase keyword)) ks)))
          (of_count (length ks))) (lit (1 / 10)))
    | None \<Rightarrow> fitted)"
  have c: "fin_nonneg covered"
  proof (cases "keywords' request")
    case None
    then show ?thesis using f by (simp add: covered_def)
  next
    case (Some ks)
    with assms have "0 < length ks" by simp
    then show ?thesis
      unfolding covered_def Some option.case
      by (intro fin_nonneg_add fin_nonneg_mul fin_nonneg_div_count fin_nonneg_lit f) simp_all
  qed
  have "calculateConfidence content' request = Math_min covered (lit 1)"
    unfolding calculateConfidence_def covered_def fitted_def Let_def ..
  then show "fin_nonneg (calculateConfidence content' request)"
    and "in_unit (calculateConfidence content' request)"
    using min_one[OF c] by simp_all
qed

lemma decay_first:
  "decay 0 = Fin 1" "decay 1 = lit (9 / 10)" "decay 2 = lit (8 / 10)"
  by code_simp+

lemma decay_in_unit: "i \<le> 10 \<Longrightarrow> in_unit (decay i)"
proof -
  assume "i \<le> 10"
  have "list_all in_unit (map decay [0..<11])"
    by code_simp
  then have "\<forall>j \<in> set [0..<11]. in_unit (decay j)"
    by (simp only: list_all_iff set_map ball_simps)
  with \<open>i \<le> 10\<close> show ?thesis by simp
qed

lemma num_mul_in_unit: "in_unit a \<Longrightarrow> in_unit b \<Longrightarrow> in_unit (num_mul a b)"
  by (auto simp: in_unit_Fin rnd_nonneg intro!: rnd_le_one mult_le_one)

lemma generateContent_Inr:
  "generateContent model request = Inr s \<longleftrightarrow>
     (\<exists>raw. first_text (model (submitted request)) = Some raw \<and>
        s = parseGeneratedContent raw request)"
  by (auto simp: generateContent_def submitted_def Let_def split: option.splits)

lemma parse_confidence:
  "fin_nonneg (confidence (parseGeneratedContent raw request)) \<or>
   confidence (parseGeneratedContent raw request) = NaN"
  using calculateConfidence_nan[of request] calculateConfidence_fin(1)[of request]
  by (cases "keywords' request = Some []") (auto simp: parse_fields(3))

lemma single_shot_confidence:
  assumes "i < nat count" "single_shots model request count ! i = Inr s"
  shows "fin_nonneg (confidence s) \<or> confidence s = NaN"
  using assms parse_confidence by (auto simp: single_shots_nth generateContent_Inr)

lemma variations_Inr:
  assumes "generateMultipleVariations model time request count = Inr rs"
  shows "length rs = nat count"
    and "i < nat count \<Longrightarrow> \<exists>s. single_shots model request count ! i = Inr s \<and>
           rs ! i = s\<lparr>confidence := num_mul (confidence s) (decay i)\<rparr>"
proof -
  let ?ps = "single_shots model request count"
  have ok: "\<forall>p \<in> set ?ps. \<not> isl p"
    using assms variations_rejected[of model request count time] by auto
  note eq = variations_fulfilled[OF ok, of time]
  with assms show len: "length rs = nat count" by auto
  assume i: "i < nat count"
  then have "?ps ! i \<in> set ?ps" by (simp add: length_single_shots)
  with ok have "\<not> isl (?ps ! i)" by blast
  then obtain s where s: "?ps ! i = Inr s" by (cases "?ps ! i") auto
  moreover have "rs ! i = s\<lparr>confidence := num_mul (confidence s) (decay i)\<rparr>"
    using assms i s unfolding eq by auto
  ultimately show "\<exists>s. ?ps ! i = Inr s \<and> rs ! i = s\<lparr>confidence := num_mul (confidence s) (decay i)\<rparr>"
    by blast
qed

lemma variations_time:
  "generateMultipleVariations model time' request count =
   generateMultipleVariations model time request count"
proof (cases "\<exists>p \<in> set (single_shots model request count). isl p")
  case True
  then show ?thesis by (simp add: variations_rejected)
next
  case False
  then have "\<forall>p \<in> set (single_shots model request count). \<not> isl p" by simp
  then show ?thesis by (simp add: variations_fulfilled)
qed

text \<open>
  Claim C5. In a batch of variations the \<open>i\<close>-th suggestion returned (counting from 0) is
  the result of the \<open>i\<close>-th call issued, with its confidence multiplied by
  \<open>1 - i * 0.1\<close>. The result does not depend on the order in which the calls settle. For a
  count of 3 and underlying scores all equal to \<open>c\<close> the confidences are \<open>c\<close>, \<open>0.9 * c\<close> and
  \<open>0.8 * c\<close>, in this order (in doubles, \<open>1 - 0.1\<close> is 0.9 and \<open>1 - 2 * 0.1\<close> is 0.8).
\<close>

theorem variation_decay:
  "(\<forall>rs. generateMultipleVariations model time request count = Inr rs \<longrightarrow>
      (\<forall>i < nat count. \<exists>s. single_shots model request count ! i = Inr s \<and>
         rs ! i = s\<lparr>confidence := num_mul (confidence s)
           (num_sub (lit 1) (num_mul (of_count i) (lit (1 / 10))))\<rparr>)) \<and>
   generateMultipleVariations model time' request count =
     generateMultipleVariations model time request count \<and>
   (\<forall>rs c. generateMultipleVariations model time request 3 = Inr rs \<and>
      (\<forall>i < 3. confidence (projr (single_shots model request 3 ! i)) = c) \<longrightarrow>
      map confidence rs = [c, num_mul (lit (9 / 10)) c, num_mul (lit (8 / 10)) c])"
proof (intro conjI allI impI)
  fix rs i
  assume "generateMultipleVariations model time request count = Inr rs" "i < nat count"
  then show "\<exists>s. single_shots model request count ! i = Inr s \<and>
         rs ! i = s\<lparr>confidence := num_mul (confidence s)
           (num_sub (lit 1) (num_mul (of_count i) (lit (1 / 10))))\<rparr>"
    using variations_Inr(2)[of model time request count rs i] by (simp add: decay_def)
next
  show "generateMultipleVariations model time' request count =
     generateMultipleVariations model time request count"
    by (rule variations_time)
next
  fix rs c
  assume a: "generateMultipleVariations model time request 3 = Inr rs \<and>
      (\<forall>i < 3. confidence (projr (single_shots model request 3 ! i)) = c)"
  let ?ps = "single_shots model request 3"
  have len: "length rs = 3" using variations_Inr(1)[of model time request 3 rs] a by simp
  have nth: "confidence (rs ! i) = num_mul c (decay i)" if "i < 3" for i
  proof -
    from that obtain s where s: "?ps ! i = Inr s"
      "rs ! i = s\<lparr>confidence := num_mul (confidence s) (decay i)\<rparr>"
      using variations_Inr(2)[of model time request 3 rs i] a by auto
    moreover have "confidence s = c" using a that s(1) by (metis sum.sel(2))
    ultimately show ?thesis by simp
  qed
  have c: "fin_nonneg c \<or> c = NaN"
  proof -
    obtain s where s: "?ps ! 0 = Inr s"
      using variations_Inr(2)[of model time request 3 rs 0] a by auto
    then have "confidence s = c" using a by (metis sum.sel(2) zero_less_numeral)
    then show ?thesis using single_shot_confidence[of 0 3 model request s] s by simp
  qed
  from len obtain x y z where rs: "rs = [x, y, z]"
    by (auto simp: length_Suc_conv numeral_3_eq_3)
  have "confidence x = num_mul c (decay 0)" "confidence y = num_mul c (decay 1)"
    "confidence z = num_mul c (decay 2)"
    using nth[of 0] nth[of 1] nth[of 2] by (simp_all add: rs)
  then have "confidence x = c" "confidence y = num_mul (lit (9 / 10)) c"
    "confidence z = num_mul (lit (8 / 10)) c"
    unfolding decay_first num_mul_one[OF c] by (simp_all only: num_mul_commute[of c])
  then show "map confidence rs = [c, num_mul (lit (9 / 10)) c, num_mul (lit (8 / 10)) c]"
    by (simp add: rs)
qed

lemma hello_score:
  "single_shots (\<lambda>i. always ''Hello world'') example_request 3 ! i =
     (if i < 3 then Inr \<lparr>content = ''Hello world'', title = None, hashtags = None,
        confidence = lit (9 / 10), alternatives = None\<rparr> else single_shots (\<lambda>i. always ''Hello world'') example_request 3 ! i)"
proof (cases "i < 3")
  case True
  have "parseGeneratedContent ''Hello world'' r = \<lparr>content = ''Hello world'', title = None, hashtags = None,
        confidence = lit (9 / 10), alternatives = None\<rparr>" if "length' r = Some short" "keywords' r = None" for r
    using that score_fitted
    by (simp add: parseGeneratedContent_def calculateConfidence_def trim_def isWhiteSpace_def
      LF_def Let_def)
  then show ?thesis using True
    by (simp add: single_shots_nth generateContent_def always_def example_request_def Let_def)
next
  case False
  then show ?thesis by simp
qed

theorem variation_decay_witness:
  "(\<exists>rs. generateMultipleVariations (\<lambda>i. always ''Hello world'') (\<lambda>i. 2 - i) example_request 3 = Inr rs \<and>
      map confidence rs =
        [lit (9 / 10), num_mul (lit (9 / 10)) (lit (9 / 10)), num_mul (lit (8 / 10)) (lit (9 / 10))] \<and>
      rs ! 2 = (projr (single_shots (\<lambda>i. always ''Hello world'') example_request 3 ! 2))
        \<lparr>confidence := num_mul (lit (9 / 10))
           (num_sub (lit 1) (num_mul (of_count 2) (lit (1 / 10))))\<rparr>) \<and>
   generateMultipleVariations (\<lambda>i. always ''Hello world'') (\<lambda>i. i) example_request 3 =
     generateMultipleVariations (\<lambda>i. always ''Hello world'') (\<lambda>i. 2 - i) example_request 3"
proof -
  let ?m = "\<lambda>i::nat. always ''Hello world''"
  let ?t = "\<lambda>i::nat. 2 - i"
  have ok: "\<forall>i < nat 3. \<not> isl (single_shots ?m example_request 3 ! i)"
    by (simp add: single_shots_nth generateContent_isl always_def)
  then obtain rs where rs: "generateMultipleVariations ?m ?t example_request 3 = Inr rs"
    using variations_succeed[of 3 ?m example_request ?t] by blast
  have same: "\<forall>i < 3. confidence (projr (single_shots ?m example_request 3 ! i)) = lit (9 / 10)"
    by (subst hello_score) simp
  have same': "\<forall>i < 3. confidence (projr (single_shots ?m example_request 3 ! i)) = lit (9 / 10)"
    using same .
  note d1 = variation_decay[of ?m ?t example_request 3 "\<lambda>i. i", THEN conjunct1, rule_format]
  note d2 = variation_decay[of ?m ?t example_request 3 "\<lambda>i. i", THEN conjunct2, THEN conjunct1]
  note d3 = variation_decay[of ?m ?t example_request 3 "\<lambda>i. i", THEN conjunct2, THEN conjunct2,
      THEN spec, THEN spec, THEN mp]
  have one: "map confidence rs =
        [lit (9 / 10), num_mul (lit (9 / 10)) (lit (9 / 10)), num_mul (lit (8 / 10)) (lit (9 / 10))]"
    by (rule d3) (use rs same' in simp)
  have "(2::nat) < nat 3" by simp
  from d1[OF rs this] obtain s where s: "single_shots ?m example_request 3 ! 2 = Inr s"
      "rs ! 2 = s\<lparr>confidence := num_mul (confidence s)
           (num_sub (lit 1) (num_mul (of_count 2) (lit (1 / 10))))\<rparr>"
    by blast
  have "confidence (projr (single_shots ?m example_request 3 ! 2)) = lit (9 / 10)"
    using same' by simp
  then have "confidence s = lit (9 / 10)" by (simp add: s(1))
  then have two: "rs ! 2 = (projr (single_shots ?m example_request 3 ! 2))
        \<lparr>confidence := num_mul (lit (9 / 10))
           (num_sub (lit 1) (num_mul (of_count 2) (lit (1 / 10))))\<rparr>"
    using s by simp
  show ?thesis
    using rs one two d2 by (intro conjI exI[of _ rs])
qed

section \<open>Suggestions returned to the caller\<close>

lemma set_cons_first: "l \<in> set (cons_first x ws) \<Longrightarrow> set l \<subseteq> insert x (\<Union>(set ` set ws))"
  by (cases ws) auto

lemma set_split: "l \<in> set (split c s) \<Longrightarrow> set l \<subseteq> set s"
proof (induction s arbitrary: l)
  case Nil
  then show ?case by simp
next
  case (Cons x xs)
  show ?case
  proof (cases "x = c")
    case True
    with Cons show ?thesis by auto
  next
    case False
    with Cons.prems have "l \<in> set (cons_first x (split c xs))" by simp
    from set_cons_first[OF this] Cons.IH show ?thesis by auto
  qed
qed

lemma set_join: "l \<in> set ls \<Longrightarrow> set l \<subseteq> set (join sep ls)"
  by (induction sep ls rule: join.induct) auto

lemma content_blank_iff:
  "trim (content (parseGeneratedContent raw request)) = [] \<longleftrightarrow> list_all isWhiteSpace raw"
proof (cases "2 \<le> length (kept_lines raw) \<and> length (hd (kept_lines raw)) < 100 \<and>
    startsUpper (hd (kept_lines raw))")
  case False
  then have "content (parseGeneratedContent raw request) = trim raw"
    by (auto simp: parse_fields(2))
  then show ?thesis
    by (simp add: trim_idem trim_eq_Nil_iff list_all_iff)
next
  case True
  then obtain l where l: "l \<in> set (tl (kept_lines raw))"
    by (cases "kept_lines raw"; cases "tl (kept_lines raw)") auto
  then have k: "l \<in> set (kept_lines raw)" by (metis list.set_sel(2) tl_Nil)
  then have "trim l \<noteq> []" by (simp add: kept_lines_def)
  then obtain c where c: "c \<in> set l" "\<not> isWhiteSpace c" by (auto simp: trim_eq_Nil_iff)
  have "c \<in> set raw" using c(1) k set_split[of l LF raw] by (auto simp: kept_lines_def)
  then have raw: "\<not> list_all isWhiteSpace raw" using c(2) by (auto simp: list_all_iff)
  have "c \<in> set (join [LF] (tl (kept_lines raw)))" using c(1) set_join[OF l] by auto
  then have "trim (join [LF] (tl (kept_lines raw))) \<noteq> []" using c(2) by (auto simp: trim_eq_Nil_iff)
  moreover have "content (parseGeneratedContent raw request) = trim (join [LF] (tl (kept_lines raw)))"
    using True by (simp add: parse_fields(2))
  ultimately show ?thesis using raw by (simp add: trim_idem)
qed

lemma generateContent_in_unit:
  "generateContent model request = Inr s \<Longrightarrow> keywords' request \<noteq> Some [] \<Longrightarrow>
   in_unit (confidence s)"
  by (auto simp: generateContent_Inr parse_fields(3) calculateConfidence_fin(2))

lemma generateContent_blank:
  "generateContent model request = Inr s \<Longrightarrow>
   (trim (content s) = [] \<longleftrightarrow>
      (\<exists>raw. first_text (model (submitted request)) = Some raw \<and> list_all isWhiteSpace raw))"
  by (auto simp: generateContent_Inr content_blank_iff)

text \<open>
  A provider text that is empty gives a suggestion with empty content, and the twelfth
  variation of a batch has a negative confidence: the factor \<open>1 - 11 * 0.1\<close> is below 0.
\<close>

theorem suggestion_invariant_counterexample:
  "(\<exists>s. generateContent (always '''') example_request = Inr s \<and> trim (content s) = []) \<and>
   (\<exists>rs. generateMultipleVariations (\<lambda>i. always ''Hello world'') (\<lambda>i. 0) example_request 12 = Inr rs \<and>
      confidence (rs ! 11) = Fin (- (405323966463345 / 4503599627370496)) \<and>
      \<not> in_unit (confidence (rs ! 11)))"
proof -
  let ?m = "\<lambda>i::nat. always ''Hello world''"
  have "generateContent (always '''') example_request
      = Inr (parseGeneratedContent '''' example_request)"
    by (simp add: generateContent_def always_def Let_def)
  moreover have "trim (content (parseGeneratedContent '''' example_request)) = []"
    by (simp add: content_blank_iff)
  ultimately have first: "\<exists>s. generateContent (always '''') example_request = Inr s \<and> trim (content s) = []"
    by simp
  have ok: "\<forall>i < nat 12. \<not> isl (single_shots ?m example_request 12 ! i)"
    by (simp add: single_shots_nth generateContent_isl always_def)
  then obtain rs where rs: "generateMultipleVariations ?m (\<lambda>i. 0) example_request 12 = Inr rs"
    using variations_succeed[of 12 ?m example_request "\<lambda>i. 0"] by blast
  have "(11::nat) < nat 12" by simp
  from variations_Inr(2)[OF rs this] obtain s where
    s: "single_shots ?m example_request 12 ! 11 = Inr s"
      "rs ! 11 = s\<lparr>confidence := num_mul (confidence s) (decay 11)\<rparr>"
    by blast
  have "parseGeneratedContent ''Hello world'' r = \<lparr>content = ''Hello world'', title = None, hashtags = None,
        confidence = lit (9 / 10), alternatives = None\<rparr>" if "length' r = Some short" "keywords' r = None" for r
    using that score_fitted
    by (simp add: parseGeneratedContent_def calculateConfidence_def trim_def isWhiteSpace_def
      LF_def Let_def)
  then have "single_shots ?m example_request 12 ! 11 = Inr \<lparr>content = ''Hello world'', title = None, hashtags = None,
        confidence = lit (9 / 10), alternatives = None\<rparr>"
    by (simp add: single_shots_nth generateContent_def always_def example_request_def Let_def)
  with s have c: "confidence (rs ! 11) = num_mul (lit (9 / 10)) (decay 11)" by auto
  have v: "num_mul (lit (9 / 10)) (decay 11) = Fin (- (405323966463345 / 4503599627370496))"
    by code_simp
  have "\<not> in_unit (Fin (- (405323966463345 / 4503599627370496)))"
    by (simp add: in_unit_def)
  with c v rs first show ?thesis by simp
qed

lemma improvContent_request:
  "improvContent model original improvement audience =
     generateContent model (improvement_request original improvement audience)"
  by (simp add: improvContent_def improvement_request_def Let_def)

lemma variation_nth:
  assumes "generateMultipleVariations models time request count = Inr rs" "i < length rs"
  shows "\<exists>s. generateContent (models i) (variation_request request) = Inr s \<and>
           rs ! i = s\<lparr>confidence := num_mul (confidence s) (decay i)\<rparr>"
proof -
  have i: "i < nat count" using assms variations_Inr(1)[OF assms(1)] by simp
  from variations_Inr(2)[OF assms(1) i] show ?thesis
    using i by (simp add: single_shots_nth variation_request_def)
qed

text \<open>
  Claim C1, amended. A suggestion returned by \<open>generateContent\<close>, by \<open>improvContent\<close> or
  as the \<open>i\<close>-th of a batch of variations has empty content exactly when the text the
  provider returned for it consists of white space only (is empty, in particular).
  Its confidence lies in \<open>[0, 1]\<close> for \<open>generateContent\<close> when the keyword list is absent or
  non-empty, always for \<open>improvContent\<close>, and for a variation when moreover its index
  is at most 10. The request with a present, empty keyword list is left out here.
\<close>

theorem suggestion_invariant:
  "(generateContent model request = Inr s \<longrightarrow>
      (trim (content s) = [] \<longleftrightarrow>
         (\<exists>raw. first_text (model (submitted request)) = Some raw \<and> list_all isWhiteSpace raw)) \<and>
      (keywords' request \<noteq> Some [] \<longrightarrow> in_unit (confidence s))) \<and>
   (improvContent model original improvement audience = Inr s' \<longrightarrow>
      (trim (content s') = [] \<longleftrightarrow>
         (\<exists>raw. first_text (model (submitted (improvement_request original improvement audience)))
            = Some raw \<and> list_all isWhiteSpace raw)) \<and>
      in_unit (confidence s')) \<and>
   (generateMultipleVariations models time request count = Inr rs \<and> i < length rs \<longrightarrow>
      (trim (content (rs ! i)) = [] \<longleftrightarrow>
         (\<exists>raw. first_text (models i (submitted (variation_request request))) = Some raw \<and>
            list_all isWhiteSpace raw)) \<and>
      (keywords' request \<noteq> Some [] \<and> i \<le> 10 \<longrightarrow> in_unit (confidence (rs ! i))))"
proof (intro conjI impI)
  assume "generateContent model request = Inr s"
  then show "trim (content s) = [] \<longleftrightarrow>
         (\<exists>raw. first_text (model (submitted request)) = Some raw \<and> list_all isWhiteSpace raw)"
    by (rule generateContent_blank)
next
  assume "generateContent model request = Inr s" "keywords' request \<noteq> Some []"
  then show "in_unit (confidence s)" by (rule generateContent_in_unit)
next
  assume "improvContent model original improvement audience = Inr s'"
  then show "trim (content s') = [] \<longleftrightarrow>
         (\<exists>raw. first_text (model (submitted (improvement_request original improvement audience)))
            = Some raw \<and> list_all isWhiteSpace raw)"
    unfolding improvContent_request by (rule generateContent_blank)
next
  assume "improvContent model original improvement audience = Inr s'"
  then show "in_unit (confidence s')"
    unfolding improvContent_request
    by (rule generateContent_in_unit) (simp add: improvement_request_def)
next
  assume a: "generateMultipleVariations models time request count = Inr rs \<and> i < length rs"
  then obtain s where s: "generateContent (models i) (variation_request request) = Inr s"
      "rs ! i = s\<lparr>confidence := num_mul (confidence s) (decay i)\<rparr>"
    using variation_nth[of models time request count rs i] by blast
  show "trim (content (rs ! i)) = [] \<longleftrightarrow>
         (\<exists>raw. first_text (models i (submitted (variation_request request))) = Some raw \<and>
            list_all isWhiteSpace raw)"
    using generateContent_blank[OF s(1)] by (simp add: s(2))
next
  assume a: "generateMultipleVariations models time request count = Inr rs \<and> i < length rs"
    and b: "keywords' request \<noteq> Some [] \<and> i \<le> 10"
  then obtain s where s: "generateContent (models i) (variation_request request) = Inr s"
      "rs ! i = s\<lparr>confidence := num_mul (confidence s) (decay i)\<rparr>"
    using variation_nth[of models time request count rs i] by blast
  have "in_unit (confidence s)"
    using s(1) b by (intro generateContent_in_unit[of "models i" "variation_request request"])
      (simp_all add: variation_request_def)
  then show "in_unit (confidence (rs ! i))"
    using b by (simp add: s(2) num_mul_in_unit decay_in_unit)
qed

theorem suggestion_invariant_witness:
  "(\<exists>s. generateContent (always ''Hello world'') example_request = Inr s \<and>
      keywords' example_request \<noteq> Some [] \<and> trim (content s) \<noteq> [] \<and> in_unit (confidence s)) \<and>
   (\<exists>s. improvContent (always ''Hello world'') ''Old text'' clarity None = Inr s \<and>
      trim (content s) \<noteq> [] \<and> in_unit (confidence s)) \<and>
   (\<exists>rs. generateMultipleVariations (\<lambda>i. always ''Hello world'') (\<lambda>i. 2 - i) example_request 3
        = Inr rs \<and> 2 < length rs \<and> (2::nat) \<le> 10 \<and>
      trim (content (rs ! 2)) \<noteq> [] \<and> in_unit (confidence (rs ! 2)))"
proof -
  let ?m = "always ''Hello world''"
  let ?ms = "\<lambda>i::nat. always ''Hello world''"
  let ?t = "\<lambda>i::nat. 2 - i"
  have got: "first_text (?m p) = Some ''Hello world''" for p
    by (simp add: always_def)
  have visible: "\<not> list_all isWhiteSpace ''Hello world''"
    by (simp add: isWhiteSpace_def)
  have nonblank: "\<not> (\<exists>raw. first_text (?m p) = Some raw \<and> list_all isWhiteSpace raw)" for p
    using visible by (simp add: got)
  have k: "keywords' example_request \<noteq> Some []"
    by (simp add: example_request_def)
  obtain s1 where s1: "generateContent ?m example_request = Inr s1"
    by (simp add: generateContent_Inr got)
  note g = suggestion_invariant[where model = ?m and request = example_request and s = s1,
      THEN conjunct1, THEN mp, OF s1]
  have c1: "trim (content s1) \<noteq> []"
    using g[THEN conjunct1] nonblank by simp
  have u1: "in_unit (confidence s1)"
    using g[THEN conjunct2, THEN mp, OF k] .
  obtain s2 where s2: "improvContent ?m ''Old text'' clarity None = Inr s2"
    by (simp add: improvContent_request generateContent_Inr got)
  note h = suggestion_invariant[where model = ?m and original = "''Old text''"
      and improvement = clarity and audience = None and s' = s2,
      THEN conjunct2, THEN conjunct1, THEN mp, OF s2]
  have c2: "trim (content s2) \<noteq> []"
    using h[THEN conjunct1] nonblank by simp
  have u2: "in_unit (confidence s2)"
    using h[THEN conjunct2] .
  have ok: "\<forall>i < nat 3. \<not> isl (single_shots ?ms example_request 3 ! i)"
    by (simp add: single_shots_nth generateContent_isl always_def)
  then obtain rs where rs: "generateMultipleVariations ?ms ?t example_request 3 = Inr rs"
    using variations_succeed[of 3 ?ms example_request ?t] by blast
  have len: "2 < length rs"
    using variations_Inr(1)[OF rs] by simp
  note v = suggestion_invariant[where models = ?ms and time = ?t and request = example_request
      and count = 3 and rs = rs and i = 2,
      THEN conjunct2, THEN conjunct2, THEN mp, OF conjI[OF rs len]]
  have c3: "trim (content (rs ! 2)) \<noteq> []"
    using v[THEN conjunct1] nonblank by simp
  have u3: "in_unit (confidence (rs ! 2))"
    using v[THEN conjunct2, THEN mp] k by simp
  show ?thesis
    using s1 k c1 u1 s2 c2 u2 rs len c3 u3 by (intro conjI exI[of _ s1] exI[of _ s2] exI[of _ rs]) simp_all
qed

section \<open>Confidence scorer against the specification\<close>

lemma startsWith_iff: "startsWith s t \<longleftrightarrow> (\<exists>b. s = t @ b)"
  by (induction s t rule: startsWith.induct) auto

lemma includes_str_iff: "includes_str s t \<longleftrightarrow> (\<exists>a b. s = a @ t @ b)"
proof (induction s)
  case Nil
  then show ?case by auto
next
  case (Cons x xs)
  have "(\<exists>a b. x # xs = a @ t @ b) \<longleftrightarrow> (\<exists>b. x # xs = t @ b) \<or> (\<exists>a b. xs = a @ t @ b)"
  proof
    assume "\<exists>a b. x # xs = a @ t @ b"
    then obtain a b where ab: "x # xs = a @ t @ b" by blast
    show "(\<exists>b. x # xs = t @ b) \<or> (\<exists>a b. xs = a @ t @ b)"
    proof (cases a)
      case Nil
      with ab show ?thesis by auto
    next
      case (Cons y ys)
      with ab have "xs = ys @ t @ b" by simp
      then show ?thesis by blast
    qed
  next
    assume "(\<exists>b. x # xs = t @ b) \<or> (\<exists>a b. xs = a @ t @ b)"
    then show "\<exists>a b. x # xs = a @ t @ b"
    proof
      assume "\<exists>b. x # xs = t @ b"
      then obtain b where "x # xs = [] @ t @ b" by auto
      then show ?thesis by blast
    next
      assume "\<exists>a b. xs = a @ t @ b"
      then obtain a b where "x # xs = (x # a) @ t @ b" by auto
      then show ?thesis by blast
    qed
  qed
  then show ?case using Cons.IH by (simp add: startsWith_iff)
qed

lemma score_agrees:
  "keywords' request \<noteq> Some [] \<Longrightarrow>
   calculateConfidence content' request = spec_confidence content' request"
  by (cases "length' request"; cases "keywords' request")
     (auto simp: calculateConfidence_def spec_confidence_def in_band_def keyword_fraction_def
        Let_def num_mul_commute split: content_length.splits)

lemma spec_confidence_empty:
  "keywords' request = Some [] \<Longrightarrow>
   spec_confidence content' request = spec_confidence content' (request\<lparr>keywords' := None\<rparr>)"
  by (simp add: spec_confidence_def)

lemma spec_confidence_in_unit: "in_unit (spec_confidence content' request)"
proof (cases "keywords' request = Some []")
  case True
  have "spec_confidence content' request = calculateConfidence content' (request\<lparr>keywords' := None\<rparr>)"
    using spec_confidence_empty[OF True] score_agrees[of "request\<lparr>keywords' := None\<rparr>" content']
    by simp
  then show ?thesis
    using calculateConfidence_fin(2)[of "request\<lparr>keywords' := None\<rparr>" content'] by simp
next
  case False
  then show ?thesis
    using score_agrees[OF False, of content'] calculateConfidence_fin(2)[OF False, of content']
    by simp
qed

lemma keyword_examples:
  "toLowerCase ''Big Spring SALE'' = ''big spring sale''"
  "calculateConfidence ''Big Spring SALE starts today'' keyword_request =
     num_add (lit (8 / 10)) (num_mul (lit (1 / 2)) (lit (1 / 10)))"
  "num_add (lit (8 / 10)) (num_mul (lit (1 / 2)) (lit (1 / 10))) =
     Fin (1914029841632461 / 2251799813685248)"
  "calculateConfidence ''Big Spring SALE starts today''
     (keyword_request\<lparr>length' := Some short, keywords' := Some [''SPRING'', ''big'']\<rparr>) = lit 1"
  "calculateConfidence ''Big Spring SALE starts today''
     (keyword_request\<lparr>keywords' := Some [''winter'']\<rparr>) = lit (8 / 10)"
  by code_simp+

text \<open>
  Claim C2 fails on the code for a keyword list that is present and empty: there
  \<open>calculateConfidence\<close> returns \<open>NaN\<close>, which is not at most 1, where the score of the
  specification is the score without keywords and lies in \<open>[0, 1]\<close>. For every other
  request the score of \<open>calculateConfidence\<close> is the score of the specification: the base
  0.8, plus 0.1 exactly when the word count (the number of pieces between single spaces)
  lies in the band of the length option, plus 0.1 times the fraction of the keywords
  whose lower-case form is a contiguous piece of the lower-case content, clamped to at
  most 1. Without length and keywords the score is the double 0.8; with length short and
  a content of ten words it is the double 0.9. With two of four keywords matched, in
  mixed case, the score is the double sum of 0.8 and 0.5 times 0.1; with all keywords
  matched and the length fitting it is 1; with no keyword matched it is 0.8.
\<close>

theorem confidence_formula:
  "(keywords' request \<noteq> Some [] \<longrightarrow>
      calculateConfidence content' request = spec_confidence content' request) \<and>
   (keywords' request = Some [] \<longrightarrow>
      calculateConfidence content' request = NaN \<and>
      \<not> num_le (calculateConfidence content' request) (lit 1) \<and>
      spec_confidence content' request = spec_confidence content' (request\<lparr>keywords' := None\<rparr>)) \<and>
   in_unit (spec_confidence content' request) \<and>
   (length' request = None \<and> keywords' request = None \<longrightarrow>
      calculateConfidence content' request = lit (8 / 10)) \<and>
   (length' request = Some short \<and> keywords' request = None \<and>
    length (split (CHR '' '') content') = 10 \<longrightarrow>
      calculateConfidence content' request = lit (9 / 10)) \<and>
   (includes_str s t \<longleftrightarrow> (\<exists>a b. s = a @ t @ b)) \<and>
   toLowerCase ''Big Spring SALE'' = ''big spring sale'' \<and>
   calculateConfidence ''Big Spring SALE starts today'' keyword_request =
     num_add (lit (8 / 10)) (num_mul (lit (1 / 2)) (lit (1 / 10))) \<and>
   num_add (lit (8 / 10)) (num_mul (lit (1 / 2)) (lit (1 / 10))) =
     Fin (1914029841632461 / 2251799813685248) \<and>
   calculateConfidence ''Big Spring SALE starts today''
     (keyword_request\<lparr>length' := Some short, keywords' := Some [''SPRING'', ''big'']\<rparr>) = lit 1 \<and>
   calculateConfidence ''Big Spring SALE starts today''
     (keyword_request\<lparr>keywords' := Some [''winter'']\<rparr>) = lit (8 / 10)"
proof -
  have base: "calculateConfidence content' request = lit (8 / 10)"
    if "length' request = None" "keywords' request = None"
    using that score_base by (simp add: calculateConfidence_def)
  have fitted: "calculateConfidence content' request = lit (9 / 10)"
    if "length' request = Some short" "keywords' request = None"
      "length (split (CHR '' '') content') = 10"
    using that score_fitted by (simp add: calculateConfidence_def)
  have nan: "calculateConfidence content' request = NaN \<and>
      \<not> num_le (calculateConfidence content' request) (lit 1)"
    if "keywords' request = Some []"
    using calculateConfidence_nan[OF that, of content'] by simp
  show ?thesis
    using score_agrees[of request content'] nan spec_confidence_empty[of request content']
      spec_confidence_in_unit[of content' request] base fitted includes_str_iff[of s t]
      keyword_examples
    by blast
qed

theorem confidence_formula_witness:
  "keywords' keyword_request \<noteq> Some [] \<and>
   calculateConfidence ''Big Spring SALE starts today'' keyword_request =
     spec_confidence ''Big Spring SALE starts today'' keyword_request \<and>
   spec_confidence ''Big Spring SALE starts today'' keyword_request =
     Fin (1914029841632461 / 2251799813685248) \<and>
   keywords' (example_request\<lparr>keywords' := Some []\<rparr>) = Some [] \<and>
   calculateConfidence ten_words (example_request\<lparr>keywords' := Some []\<rparr>) = NaN \<and>
   spec_confidence ten_words (example_request\<lparr>keywords' := Some []\<rparr>) = lit (9 / 10) \<and>
   length' (example_request\<lparr>length' := None\<rparr>) = None \<and>
   keywords' (example_request\<lparr>length' := None\<rparr>) = None \<and>
   calculateConfidence ten_words (example_request\<lparr>length' := None\<rparr>) = lit (8 / 10) \<and>
   length' example_request = Some short \<and> keywords' example_request = None \<and>
   length (split (CHR '' '') ten_words) = 10 \<and>
   calculateConfidence ten_words example_request = lit (9 / 10) \<and>
   lit (9 / 10) = Fin (8106479329266893 / 9007199254740992)"
proof -
  let ?b = "''Big Spring SALE starts today''"
  let ?e = "example_request\<lparr>keywords' := Some []\<rparr>"
  let ?n = "example_request\<lparr>length' := None\<rparr>"
  have k: "keywords' keyword_request \<noteq> Some []"
    by (simp add: keyword_request_def)
  have e: "keywords' ?e = Some []"
    by simp
  have a: "length' ?n = None" "keywords' ?n = None"
    "length' example_request = Some short" "keywords' example_request = None"
    by (simp_all add: example_request_def)
  have b: "length (split (CHR '' '') ten_words) = 10"
    by (simp add: ten_words_def)
  have c: "lit (9 / 10) = Fin (8106479329266893 / 9007199254740992)"
    by code_simp
  have v: "spec_confidence ?b keyword_request = Fin (1914029841632461 / 2251799813685248)"
    by code_simp
  have w: "spec_confidence ten_words ?e = lit (9 / 10)"
    by code_simp
  note t1 = confidence_formula[where request = keyword_request and content' = ?b]
  note t2 = confidence_formula[where request = ?e and content' = ten_words]
  note t3 = confidence_formula[where request = ?n and content' = ten_words]
  note t4 = confidence_formula[where request = example_request and content' = ten_words]
  have r1: "calculateConfidence ?b keyword_request = spec_confidence ?b keyword_request"
    using t1[THEN conjunct1, THEN mp, OF k] .
  have r2: "calculateConfidence ten_words ?e = NaN"
    using t2[THEN conjunct2, THEN conjunct1, THEN mp, OF e, THEN conjunct1] .
  have r3: "calculateConfidence ten_words ?n = lit (8 / 10)"
    using t3[THEN conjunct2, THEN conjunct2, THEN conjunct2, THEN conjunct1, THEN mp,
        OF conjI[OF a(1) a(2)]] .
  have r4: "calculateConfidence ten_words example_request = lit (9 / 10)"
    using t4[THEN conjunct2, THEN conjunct2, THEN conjunct2, THEN conjunct2, THEN conjunct1,
        THEN mp, OF conjI[OF a(3) conjI[OF a(4) b]]] .
  show ?thesis
    using k r1 v e r2 w a r3 b r4 c by (intro conjI)
qed

end
